theory Spec2Isabelle
  imports Complex_Main "HOL-Library.Char_ord" "HOL-Library.List_Lexorder" "HOL-Library.Sublist"
begin

section \<open>Strings\<close>

text \<open>
  A JavaScript string is modelled as a \<^typ>\<open>string\<close>, one \<^typ>\<open>char\<close> per UTF-16 code
  unit. A \<^typ>\<open>char\<close> has 256 values: the model covers the strings whose code units are
  below 256 (ASCII and the Latin-1 supplement), and strings with other code units are
  outside it. On the strings covered, \<open>toLowerCase\<close> maps \<open>A\<close>..\<open>Z\<close> and the letters
  U+00C0..U+00DE other than the multiplication sign U+00D7 to the code unit 32 above, and
  keeps every other code unit and the length (beyond Latin-1 it may change the length, as
  for U+0130); the white space of \<open>trim\<close> and of the regular expression class \<open>\s\<close> is
  tab, line feed, vertical tab, form feed, carriage return, space and the no-break space
  U+00A0. The order on strings (lexicographic on code units) is the order of
  \<open>Array.prototype.sort\<close> without a comparator.
\<close>

definition lowerChar :: "char \<Rightarrow> char" where
  "lowerChar c =
     (if (CHR ''A'' \<le> c \<and> c \<le> CHR ''Z'')
         \<or> (CHR 0xC0 \<le> c \<and> c \<le> CHR 0xDE \<and> c \<noteq> CHR 0xD7)
      then char_of (of_char c + (32::nat)) else c)"

definition toLowerCase :: "string \<Rightarrow> string" where
  "toLowerCase s = map lowerChar s"

definition isSpace :: "char \<Rightarrow> bool" where
  "isSpace c =
     (c \<in> set [CHR 0x09, CHR 0x0A, CHR 0x0B, CHR 0x0C, CHR 0x0D, CHR '' '', CHR 0xA0])"

definition trim :: "string \<Rightarrow> string" where
  "trim s = rev (dropWhile isSpace (rev (dropWhile isSpace s)))"

text \<open>\<open>hay.includes(needle)\<close>: \<open>needle\<close> occurs in \<open>hay\<close> as a contiguous substring.\<close>

fun strIncludes :: "string \<Rightarrow> string \<Rightarrow> bool" where
  "strIncludes [] needle = (needle = [])"
| "strIncludes (c # cs) needle = (prefix needle (c # cs) \<or> strIncludes cs needle)"

text \<open>Decimal rendering of a natural number, as \<open>String(n)\<close> does for an integer.\<close>

function showNat :: "nat \<Rightarrow> string" where
  "showNat n =
     (if n < 10 then [char_of (48 + n)]
      else showNat (n div 10) @ [char_of (48 + n mod 10)])"
  by pat_completeness auto
termination
  by (relation "measure id") auto

text \<open>
  \<open>x.toFixed(2)\<close>. Numbers are modelled as exact rationals; \<open>NaN\<close>, the infinities and
  magnitudes from \<open>1e21\<close> on (where \<open>toFixed\<close> switches to exponent notation) are outside
  the model. The digits are those of the integer nearest to \<open>100 * |x|\<close>, the larger one
  on a tie, after the sign.
\<close>

definition toFixed2 :: "rat \<Rightarrow> string" where
  "toFixed2 x =
     (let n = nat \<lfloor>\<bar>x\<bar> * 100 + 1 / 2\<rfloor>
      in (if x < 0 then ''-'' else '''') @ showNat (n div 100) @ ''.''
           @ [char_of (48 + n mod 100 div 10), char_of (48 + n mod 10)])"

section \<open>Data model (types.ts)\<close>

datatype RecommendationType = Duplicate | MerchantNormalization | MissingField | Classification

datatype Status = Pending | Applied | Ignored

text \<open>The keys a recommendation's \<open>affectedField\<close> may name.\<close>

datatype Field =
  DateOfPayment | PaidTo | AmountPaid | ExpenseType | ExpenseSubtype | Description
  | TransactionType

text \<open>
  \<open>originalValue\<close> has type \<open>any\<close>: the rules store a string there, and the duplicate rule
  an object of four strings; the field is optional.
\<close>

datatype JsValue = Undefined | Str string | DupFields string string string string

text \<open>
  The flags are optional booleans that the code only tests for truthiness and only ever
  sets to \<open>true\<close>: an absent flag is \<open>False\<close>.
\<close>

record Flags =
  isDuplicateCandidate :: bool
  isDeleted :: bool
  merchantNormalized :: bool
  categorySuggested :: bool
  fieldsFilled :: bool

record OriginalValues =
  ovDateOfPayment :: "string option"
  ovPaidTo :: "string option"
  ovAmountPaid :: "rat option"
  ovExpenseType :: "string option"
  ovExpenseSubtype :: "string option"
  ovDescription :: "string option"
  ovTransactionType :: "string option"
  ovRowNum :: "nat option"

record TransactionRecord =
  tid :: string
  dateOfPayment :: string
  paidTo :: string
  amountPaid :: rat
  expenseType :: string
  expenseSubtype :: string
  description :: string
  transactionType :: string
  originalValues :: "OriginalValues option"
  flags :: Flags
  rowNum :: "nat option"

record Recommendation =
  rid :: string
  rtype :: RecommendationType
  transactionIds :: "string list"
  affectedField :: "Field option"
  originalValue :: JsValue
  suggestedValue :: string
  confidence :: "rat option"
  rdescription :: string
  status :: Status

definition noFlags :: Flags where
  "noFlags = \<lparr>isDuplicateCandidate = False, isDeleted = False, merchantNormalized = False,
     categorySuggested = False, fieldsFilled = False\<rparr>"

definition noOriginalValues :: OriginalValues where
  "noOriginalValues = \<lparr>ovDateOfPayment = None, ovPaidTo = None, ovAmountPaid = None,
     ovExpenseType = None, ovExpenseSubtype = None, ovDescription = None,
     ovTransactionType = None, ovRowNum = None\<rparr>"

text \<open>\<open>${t.rowNum || 'N/A'}\<close> inside a template string: row \<open>0\<close> is falsy.\<close>

definition rowText :: "TransactionRecord \<Rightarrow> string" where
  "rowText t = (case rowNum t of None \<Rightarrow> ''N/A'' | Some n \<Rightarrow> if n = 0 then ''N/A'' else showNat n)"

section \<open>Applying and ignoring recommendations (App.tsx)\<close>

text \<open>\<open>t.originalValues || {}\<close>: the snapshot taken so far, empty when there is none.\<close>

definition snapshot :: "TransactionRecord \<Rightarrow> OriginalValues" where
  "snapshot t = (case originalValues t of None \<Rightarrow> noOriginalValues | Some v \<Rightarrow> v)"

text \<open>
  The body of the \<open>map\<close> callback of \<open>applyRecommendation\<close>, which
  \<open>applyMultipleRecommendations\<close> repeats verbatim: the update of one transaction \<open>t\<close>
  under one recommendation.
\<close>

definition applyToTransaction :: "Recommendation \<Rightarrow> TransactionRecord \<Rightarrow> TransactionRecord" where
  "applyToTransaction recommendation t =
     (if tid t \<in> set (transactionIds recommendation) then
        (let ov = snapshot t;
             sv = suggestedValue recommendation;
             updated = t\<lparr>originalValues := Some ov\<rparr>
         in if rtype recommendation = MerchantNormalization
               \<and> affectedField recommendation = Some PaidTo then
              updated\<lparr>originalValues :=
                  Some (if ovPaidTo ov = None then ov\<lparr>ovPaidTo := Some (paidTo t)\<rparr> else ov),
                paidTo := sv,
                flags := (flags t)\<lparr>merchantNormalized := True\<rparr>\<rparr>
            else if rtype recommendation = Classification
               \<and> affectedField recommendation \<noteq> None then
              (if affectedField recommendation = Some ExpenseType then
                 updated\<lparr>originalValues :=
                     Some (if ovExpenseType ov = None
                           then ov\<lparr>ovExpenseType := Some (expenseType t)\<rparr> else ov),
                   expenseType := sv\<rparr>
               else if affectedField recommendation = Some ExpenseSubtype then
                 updated\<lparr>originalValues :=
                     Some (if ovExpenseSubtype ov = None
                           then ov\<lparr>ovExpenseSubtype := Some (expenseSubtype t)\<rparr> else ov),
                   expenseSubtype := sv\<rparr>
               else updated)
              \<lparr>flags := (flags t)\<lparr>categorySuggested := True\<rparr>\<rparr>
            else if rtype recommendation = MissingField
               \<and> affectedField recommendation \<noteq> None then
              (if affectedField recommendation = Some ExpenseType then
                 updated\<lparr>originalValues :=
                     Some (if ovExpenseType ov = None
                           then ov\<lparr>ovExpenseType := Some (expenseType t)\<rparr> else ov),
                   expenseType := sv\<rparr>
               else if affectedField recommendation = Some ExpenseSubtype then
                 updated\<lparr>originalValues :=
                     Some (if ovExpenseSubtype ov = None
                           then ov\<lparr>ovExpenseSubtype := Some (expenseSubtype t)\<rparr> else ov),
                   expenseSubtype := sv\<rparr>
               else if affectedField recommendation = Some TransactionType then
                 updated\<lparr>originalValues :=
                     Some (if ovTransactionType ov = None
                           then ov\<lparr>ovTransactionType := Some (transactionType t)\<rparr> else ov),
                   transactionType := sv\<rparr>
               else updated)
              \<lparr>flags := (flags t)\<lparr>fieldsFilled := True\<rparr>\<rparr>
            else if rtype recommendation = Duplicate then
              updated\<lparr>flags := (flags t)\<lparr>isDuplicateCandidate := True,
                isDeleted := (isDeleted (flags t) \<or> sv = ''delete'' \<or> strIncludes sv (tid t))\<rparr>\<rparr>
            else updated)
      else t)"

text \<open>
  The application state the four handlers work on: the transaction list and the
  recommendation list held by the component.
\<close>

type_synonym AppState = "TransactionRecord list \<times> Recommendation list"

definition applyRecommendation :: "string \<Rightarrow> AppState \<Rightarrow> AppState" where
  "applyRecommendation recommendationId st =
     (case find (\<lambda>rec. rid rec = recommendationId) (snd st) of
        None \<Rightarrow> st
      | Some recommendation \<Rightarrow>
          (map (applyToTransaction recommendation) (fst st),
           map (\<lambda>rec. if rid rec = recommendationId then rec\<lparr>status := Applied\<rparr> else rec)
             (snd st)))"

definition ignoreRecommendation :: "string \<Rightarrow> AppState \<Rightarrow> AppState" where
  "ignoreRecommendation recommendationId st =
     (fst st,
      map (\<lambda>rec. if rid rec = recommendationId then rec\<lparr>status := Ignored\<rparr> else rec) (snd st))"

definition applyMultipleRecommendations :: "string list \<Rightarrow> AppState \<Rightarrow> AppState" where
  "applyMultipleRecommendations recommendationIds st =
     (let recsToApply =
            filter (\<lambda>rec. rid rec \<in> set recommendationIds \<and> status rec = Pending) (snd st)
      in (foldl (\<lambda>tempTransactions recommendation.
                   map (applyToTransaction recommendation) tempTransactions)
            (fst st) recsToApply,
          map (\<lambda>rec. if rid rec \<in> set recommendationIds then rec\<lparr>status := Applied\<rparr> else rec)
            (snd st)))"

definition ignoreMultipleRecommendations :: "string list \<Rightarrow> AppState \<Rightarrow> AppState" where
  "ignoreMultipleRecommendations recommendationIds st =
     (fst st,
      map (\<lambda>rec. if rid rec \<in> set recommendationIds then rec\<lparr>status := Ignored\<rparr> else rec)
        (snd st))"

section \<open>Duplicate rule (services/rules/duplicateRule.ts)\<close>

text \<open>
  Similarities and confidences are JavaScript numbers in the code and exact rationals
  here. The comparisons of the code (with \<open>0.8\<close>, \<open>0.7\<close>, \<open>0.75\<close>) are between quotients of
  string lengths and decimal literals, on which the two agree.
\<close>

definition simpleSimilarity :: "string \<Rightarrow> string \<Rightarrow> rat" where
  "simpleSimilarity s1 s2 =
     (let longer = (if length s1 > length s2 then s1 else s2);
          shorter = (if length s1 > length s2 then s2 else s1)
      in if length longer = 0 then 1
         else
           (let longerLower = toLowerCase longer;
                shorterLower = toLowerCase shorter
            in if strIncludes longerLower shorterLower
                  \<and> int (length longer) - int (length shorter) < 5 then 4 / 5
               else of_nat (length (filter (\<lambda>c. c \<in> set longerLower) shorterLower))
                      / of_nat (length longer)))"

text \<open>
  A recommendation as a rule builds it, before its id is drawn: the rules call
  \<open>self.crypto.randomUUID()\<close> once for each recommendation they push, and
  \<open>drawIds\<close> below gives the k-th recommendation pushed during a run the k-th id
  generated during that run. Until then the id is empty.
\<close>

definition duplicateDescription :: "TransactionRecord \<Rightarrow> TransactionRecord \<Rightarrow> string" where
  "duplicateDescription t1 t2 =
     ''Potential duplicate transactions found. Row '' @ rowText t1 @ '' and Row '' @ rowText t2
       @ '' have the same date and amount, with similar 'Paid To' and/or 'Description'.''"

definition bucketKey :: "TransactionRecord \<Rightarrow> string" where
  "bucketKey t = dateOfPayment t @ ''_'' @ toFixed2 (amountPaid t)"

text \<open>
  \<open>potentialDuplicates\<close> is a \<open>Map\<close> from bucket key to the transactions of the bucket;
  it is iterated in the order in which its keys were first set.
\<close>

fun addToGroup ::
  "string \<Rightarrow> TransactionRecord \<Rightarrow> (string \<times> TransactionRecord list) list
   \<Rightarrow> (string \<times> TransactionRecord list) list" where
  "addToGroup k t [] = [(k, [t])]"
| "addToGroup k t ((k', g) # rest) =
     (if k' = k then (k', g @ [t]) # rest else (k', g) # addToGroup k t rest)"

definition potentialDuplicates ::
  "TransactionRecord list \<Rightarrow> (string \<times> TransactionRecord list) list" where
  "potentialDuplicates transactions =
     foldl (\<lambda>m t. if isDeleted (flags t) then m else addToGroup (bucketKey t) t m) []
       transactions"

text \<open>The pairs \<open>(group[i], group[j])\<close> with \<open>i < j\<close>, in the order of the two loops.\<close>

fun allPairs :: "'a list \<Rightarrow> ('a \<times> 'a) list" where
  "allPairs [] = []"
| "allPairs (x # xs) = map (Pair x) xs @ allPairs xs"

fun joinDash :: "string list \<Rightarrow> string" where
  "joinDash [] = []"
| "joinDash [x] = x"
| "joinDash (x # xs) = x @ ''-'' @ joinDash xs"

definition pairConfidence :: "TransactionRecord \<Rightarrow> TransactionRecord \<Rightarrow> rat" where
  "pairConfidence t1 t2 =
     (let paidToSimilarity = simpleSimilarity (paidTo t1) (paidTo t2);
          descriptionSimilarity = simpleSimilarity (description t1) (description t2);
          isPaidToSimilar = (paidToSimilarity > 4 / 5);
          isDescriptionSimilar = (descriptionSimilarity > 7 / 10)
      in if isPaidToSimilar \<and> isDescriptionSimilar then 9 / 10
         else if isPaidToSimilar \<and> description t1 = description t2 then 19 / 20
         else if paidTo t1 = paidTo t2 \<and> isDescriptionSimilar then 19 / 20
         else if isPaidToSimilar \<or> isDescriptionSimilar then 3 / 4
         else if paidTo t1 = paidTo t2 \<and> description t1 = description t2 then 1
         else 0)"

text \<open>
  The body of the inner loop: the state is the list of recommendations pushed so far and
  the set \<open>processedPairs\<close>.
\<close>

definition duplicateStep ::
  "Recommendation list \<times> string set \<Rightarrow> TransactionRecord \<times> TransactionRecord
   \<Rightarrow> Recommendation list \<times> string set" where
  "duplicateStep st p =
     (let t1 = fst p; t2 = snd p;
          pairKey = joinDash (sort [tid t1, tid t2])
      in if pairKey \<in> snd st then st
         else
           (let confidence = pairConfidence t1 t2
            in if confidence \<ge> 3 / 4 then
                 (fst st @
                    [\<lparr>rid = [], rtype = Duplicate,
                      transactionIds = sort [tid t1, tid t2],
                      affectedField = None,
                      originalValue =
                        DupFields (paidTo t1) (description t1) (paidTo t2) (description t2),
                      suggestedValue = ''Mark one for deletion or review.'',
                      confidence = Some confidence,
                      rdescription = duplicateDescription t1 t2,
                      status = Pending\<rparr>],
                  insert pairKey (snd st))
               else st))"

definition findDuplicateRecommendations :: "TransactionRecord list \<Rightarrow> Recommendation list" where
  "findDuplicateRecommendations transactions =
     fst (foldl duplicateStep ([], {})
       (concat (map (\<lambda>(k, group). if length group > 1 then allPairs group else [])
          (potentialDuplicates transactions))))"

section \<open>Merchant rule (services/rules/merchantRule.ts)\<close>

definition isLowerAlnum :: "char \<Rightarrow> bool" where
  "isLowerAlnum c = ((CHR ''a'' \<le> c \<and> c \<le> CHR ''z'') \<or> (CHR ''0'' \<le> c \<and> c \<le> CHR ''9''))"

text \<open>\<open>replace(/\s+/g, ' ')\<close>: every maximal run of white space becomes one space.\<close>

fun collapseSpaces :: "bool \<Rightarrow> string \<Rightarrow> string" where
  "collapseSpaces inRun [] = []"
| "collapseSpaces inRun (c # cs) =
     (if isSpace c then (if inRun then collapseSpaces True cs else CHR '' '' # collapseSpaces True cs)
      else c # collapseSpaces False cs)"

definition normalize :: "string \<Rightarrow> string" where
  "normalize str =
     trim (collapseSpaces False (filter (\<lambda>c. isLowerAlnum c \<or> isSpace c) (toLowerCase str)))"

text \<open>
  The table \<open>dp\<close> is filled row by row. \<open>dpRow c s2 prev left\<close> is the rest of row \<open>i\<close>
  from column \<open>j\<close> on, for \<open>c = normS1[i - 1]\<close>, \<open>s2\<close> the characters of \<open>normS2\<close> from
  \<open>j - 1\<close> on, \<open>prev\<close> row \<open>i - 1\<close> from column \<open>j - 1\<close> on and \<open>left = dp[i][j - 1]\<close>.
\<close>

fun dpRow :: "char \<Rightarrow> string \<Rightarrow> nat list \<Rightarrow> nat \<Rightarrow> nat list" where
  "dpRow c (d # ds) (diag # up # prev) left =
     (let v = min (min (up + 1) (left + 1)) (diag + (if c = d then 0 else 1))
      in v # dpRow c ds (up # prev) v)"
| "dpRow c ds prev left = []"

text \<open>\<open>dpRows s1 s2 i row\<close>: the last row of the table, from row \<open>i\<close> and the rest \<open>s1\<close> of \<open>normS1\<close>.\<close>

fun dpRows :: "string \<Rightarrow> string \<Rightarrow> nat \<Rightarrow> nat list \<Rightarrow> nat list" where
  "dpRows [] s2 i row = row"
| "dpRows (c # cs) s2 i row = dpRows cs s2 (Suc i) (Suc i # dpRow c s2 row (Suc i))"

definition distance :: "string \<Rightarrow> string \<Rightarrow> nat" where
  "distance normS1 normS2 = last (dpRows normS1 normS2 0 [0..<Suc (length normS2)])"

definition areStringsSimilar :: "string \<Rightarrow> string \<Rightarrow> rat \<Rightarrow> bool" where
  "areStringsSimilar s1 s2 threshold =
     (let normS1 = normalize s1; normS2 = normalize s2
      in if normS1 = normS2 then True
         else
           (let M = length normS1; N = length normS2
            in if \<bar>int M - int N\<bar> > 5 \<and> (of_nat (min M N) / of_nat (max M N) :: rat) < 1 / 2
               then False
               else
                 (let maxLength = max M N
                  in if maxLength = 0 then True
                     else 1 - of_nat (distance normS1 normS2) / of_nat maxLength \<ge> threshold)))"

text \<open>
  The score the last loop of \<open>normalizeMerchantRecommendations\<close> computes again for the
  confidence.
\<close>

definition similarityScore :: "string \<Rightarrow> string \<Rightarrow> rat" where
  "similarityScore originalPaidTo suggestedCanonical =
     (let normOriginal = normalize originalPaidTo;
          normSuggested = normalize suggestedCanonical;
          M = length normOriginal; N = length normSuggested;
          maxLength = max M N
      in if maxLength > 0 then 1 - of_nat (distance normOriginal normSuggested) / of_nat maxLength
         else if M = 0 \<and> N = 0 then 1 else 0)"

text \<open>
  Plain objects used as dictionaries. An object literal \<open>{}\<close> inherits from
  \<open>Object.prototype\<close>, so reading \<open>obj[k]\<close> for a key \<open>k\<close> that names a property of
  \<open>Object.prototype\<close> yields that property (a function, or for \<open>__proto__\<close> the
  prototype object) when \<open>obj\<close> has no own property \<open>k\<close>. The own properties are kept as
  an association list in the order in which they were created.
\<close>

definition objectPrototypeKeys :: "string list" where
  "objectPrototypeKeys =
     [''constructor'', ''__defineGetter__'', ''__defineSetter__'', ''hasOwnProperty'',
      ''__lookupGetter__'', ''__lookupSetter__'', ''isPrototypeOf'', ''propertyIsEnumerable'',
      ''toString'', ''valueOf'', ''__proto__'', ''toLocaleString'']"

datatype 'v Lookup = Own 'v | Inherited | Absent

definition objGet :: "(string \<times> 'v) list \<Rightarrow> string \<Rightarrow> 'v Lookup" where
  "objGet obj k =
     (case map_of obj k of
        Some v \<Rightarrow> Own v
      | None \<Rightarrow> if k \<in> set objectPrototypeKeys then Inherited else Absent)"

fun objSet :: "(string \<times> 'v) list \<Rightarrow> string \<Rightarrow> 'v \<Rightarrow> (string \<times> 'v) list" where
  "objSet [] k v = [(k, v)]"
| "objSet ((k', v') # rest) k v =
     (if k' = k then (k, v) # rest else (k', v') # objSet rest k v)"

text \<open>
  The order of \<open>Object.keys\<close>, \<open>Object.values\<close> and \<open>Object.entries\<close>: the keys that are
  array indices (canonical decimal numerals below \<open>2^32 - 1\<close>) in ascending numeric order,
  then the other keys in creation order.
\<close>

definition intOfDigits :: "string \<Rightarrow> int" where
  "intOfDigits s = foldl (\<lambda>n c. 10 * n + (of_char c - 48)) 0 s"

definition isArrayIndex :: "string \<Rightarrow> bool" where
  "isArrayIndex s =
     (s \<noteq> [] \<and> length s \<le> 10 \<and> (\<forall>c \<in> set s. CHR ''0'' \<le> c \<and> c \<le> CHR ''9'')
      \<and> (s = ''0'' \<or> hd s \<noteq> CHR ''0'') \<and> intOfDigits s < 4294967295)"

definition objEntries :: "(string \<times> 'v) list \<Rightarrow> (string \<times> 'v) list" where
  "objEntries obj =
     sort_key (\<lambda>e. intOfDigits (fst e)) (filter (\<lambda>e. isArrayIndex (fst e)) obj)
       @ filter (\<lambda>e. \<not> isArrayIndex (fst e)) obj"

text \<open>Truthiness of \<open>canonicalMap[k]\<close>: an inherited property is an object, hence truthy.\<close>

definition truthy :: "string Lookup \<Rightarrow> bool" where
  "truthy l = (case l of Own v \<Rightarrow> v \<noteq> [] | Inherited \<Rightarrow> True | Absent \<Rightarrow> False)"

text \<open>A \<open>Set\<close> keeps its elements in the order of their first insertion.\<close>

definition addUnique :: "'a list \<Rightarrow> 'a \<Rightarrow> 'a list" where
  "addUnique xs x = (if x \<in> set xs then xs else xs @ [x])"

datatype error = TypeError

text \<open>The trimmed names of the transactions that the first loop counts, in order.\<close>

definition merchantNames :: "TransactionRecord list \<Rightarrow> string list" where
  "merchantNames transactions =
     filter (\<lambda>paidTo. paidTo \<noteq> [])
       (map (\<lambda>t. trim (paidTo t)) (filter (\<lambda>t. \<not> isDeleted (flags t)) transactions))"

text \<open>
  \<open>sortedMerchants\<close>: the distinct names by descending count; the sort is stable. The
  count of a name that is a key of \<open>Object.prototype\<close> is not a number in the code
  (\<open>merchantCounts[paidTo] || 0\<close> reads the inherited property), the comparator then
  yields \<open>NaN\<close> and the order of the array is implementation-defined; it is taken here
  as if the name had been counted. The result of the rule does not depend on that choice:
  such a name never gets an own entry in \<open>canonicalMap\<close> (both assignments are guarded by
  a falsy read) and the last loop throws when it reaches a transaction with that name.
\<close>

definition sortedMerchants :: "TransactionRecord list \<Rightarrow> string list" where
  "sortedMerchants transactions =
     (let names = merchantNames transactions;
          uniqueMerchants = foldl addUnique [] names
      in sort_key (\<lambda>m. - int (count_list names m)) uniqueMerchants)"

text \<open>The body of the loop that groups the merchants, on \<open>canonicalMap\<close>.\<close>

definition clusterStep ::
  "string list \<Rightarrow> (string \<times> string) list \<Rightarrow> string \<Rightarrow> (string \<times> string) list" where
  "clusterStep merchants canonicalMap merchant =
     (if truthy (objGet canonicalMap merchant) then canonicalMap
      else
        (let existingCanonicals = foldl addUnique [] (map snd (objEntries canonicalMap))
         in case find (\<lambda>canonicalKey. areStringsSimilar merchant canonicalKey (4 / 5))
                   existingCanonicals of
              Some canonicalKey \<Rightarrow> objSet canonicalMap merchant canonicalKey
            | None \<Rightarrow>
                foldl (\<lambda>cm otherMerchant.
                         if \<not> truthy (objGet cm otherMerchant) \<and> merchant \<noteq> otherMerchant
                            \<and> areStringsSimilar merchant otherMerchant (4 / 5)
                         then objSet cm otherMerchant merchant else cm)
                  (objSet canonicalMap merchant merchant) merchants))"

definition canonicalMapOf :: "TransactionRecord list \<Rightarrow> (string \<times> string) list" where
  "canonicalMapOf transactions =
     foldl (clusterStep (sortedMerchants transactions)) [] (sortedMerchants transactions)"

definition merchantDescription :: "string \<Rightarrow> string \<Rightarrow> string" where
  "merchantDescription originalPaidTo suggestedCanonical =
     ''Normalize merchant name from \"'' @ originalPaidTo @ ''\" to \"'' @ suggestedCanonical
       @ ''\" for consistency.''"

text \<open>
  The body of the last loop for one transaction: the recommendations it pushes (none or
  one), or the \<open>TypeError\<close> of \<open>str.toLowerCase\<close> when \<open>canonicalMap[originalPaidTo]\<close> is an
  inherited property, which is truthy, differs from the name and is not a string.
\<close>

definition merchantEmit ::
  "(string \<times> string) list \<Rightarrow> TransactionRecord \<Rightarrow> error + Recommendation list" where
  "merchantEmit canonicalMap t =
     (if isDeleted (flags t) then Inr []
      else
        (let originalPaidTo = trim (paidTo t)
         in if originalPaidTo = [] then Inr []
            else
              (case objGet canonicalMap originalPaidTo of
                 Absent \<Rightarrow> Inr []
               | Inherited \<Rightarrow> Inl TypeError
               | Own suggestedCanonical \<Rightarrow>
                   if suggestedCanonical \<noteq> [] \<and> suggestedCanonical \<noteq> originalPaidTo then
                     (let similarityScore = similarityScore originalPaidTo suggestedCanonical;
                          confidence = 3 / 5 + similarityScore * (7 / 20)
                      in Inr [\<lparr>rid = [], rtype = MerchantNormalization,
                               transactionIds = [tid t],
                               affectedField = Some PaidTo,
                               originalValue = Str originalPaidTo,
                               suggestedValue = suggestedCanonical,
                               confidence = Some (min (19 / 20) (max (1 / 2) confidence)),
                               rdescription = merchantDescription originalPaidTo suggestedCanonical,
                               status = Pending\<rparr>])
                   else Inr [])))"

text \<open>A \<open>forEach\<close> whose body may throw: the recommendations pushed, or the first error.\<close>

fun forEachPush :: "('a \<Rightarrow> error + 'b list) \<Rightarrow> 'a list \<Rightarrow> error + 'b list" where
  "forEachPush f [] = Inr []"
| "forEachPush f (x # xs) =
     (case f x of
        Inl e \<Rightarrow> Inl e
      | Inr ys \<Rightarrow> (case forEachPush f xs of Inl e \<Rightarrow> Inl e | Inr zs \<Rightarrow> Inr (ys @ zs)))"

definition normalizeMerchantRecommendations ::
  "TransactionRecord list \<Rightarrow> error + Recommendation list" where
  "normalizeMerchantRecommendations transactions =
     forEachPush (merchantEmit (canonicalMapOf transactions)) transactions"

section \<open>Keyword table (constants.ts)\<close>

record KeywordRule =
  ruleKeywords :: "string list"
  ruleType :: string
  ruleSubtype :: string

definition KEYWORD_RULES :: "KeywordRule list" where
  "KEYWORD_RULES =
     [\<lparr>ruleKeywords = [''uber'', ''lyft'', ''taxi''], ruleType = ''Travel'',
        ruleSubtype = ''Ride Sharing''\<rparr>,
      \<lparr>ruleKeywords = [''flight'', ''airline'', ''aa.com''], ruleType = ''Travel'',
        ruleSubtype = ''Flights''\<rparr>,
      \<lparr>ruleKeywords = [''coffee'', ''starbucks'', ''cafe''], ruleType = ''Food'',
        ruleSubtype = ''Coffee Shops''\<rparr>,
      \<lparr>ruleKeywords = [''zomato'', ''doordash'', ''grubhub'', ''uber eats''], ruleType = ''Food'',
        ruleSubtype = ''Delivery''\<rparr>,
      \<lparr>ruleKeywords = [''amazon'', ''walmart'', ''target''], ruleType = ''Shopping'',
        ruleSubtype = ''General Merchandise''\<rparr>,
      \<lparr>ruleKeywords = [''groceries'', ''supermarket''], ruleType = ''Food'',
        ruleSubtype = ''Groceries''\<rparr>]"

text \<open>
  \<open>ruleDef.keywords.find(kw => paidToKey.includes(kw) || descriptionLower.includes(kw))\<close>;
  \<open>some\<close> with the same predicate holds when this finds a keyword.
\<close>

definition matchedKeyword :: "KeywordRule \<Rightarrow> string \<Rightarrow> string \<Rightarrow> string option" where
  "matchedKeyword ruleDef paidToKey descriptionLower =
     find (\<lambda>kw. strIncludes paidToKey kw \<or> strIncludes descriptionLower kw) (ruleKeywords ruleDef)"

section \<open>Missing-field rule (services/rules/missingFieldRule.ts)\<close>

text \<open>
  The frequency tables of this rule are plain objects too, nested two and three deep.
  Their reads and writes are modelled for keys that are not properties of
  \<open>Object.prototype\<close>. For a key that is one, the code writes its counts into the shared
  objects of the JavaScript realm (\<open>typeFrequency['constructor'][t.expenseType] = ...\<close>
  sets a property of the function \<open>Object\<close>), where they stay from one run to the next:
  the result is then no function of the records and the recommendations. \<open>plainKeys\<close>
  says that no key taken from the active transactions is such a name.
\<close>

definition plainKeys :: "TransactionRecord list \<Rightarrow> bool" where
  "plainKeys transactions =
     (\<forall>t \<in> set transactions. \<not> isDeleted (flags t) \<longrightarrow>
        trim (paidTo t) \<notin> set objectPrototypeKeys
      \<and> toLowerCase (paidTo t) \<notin> set objectPrototypeKeys
      \<and> expenseType t \<notin> set objectPrototypeKeys
      \<and> expenseSubtype t \<notin> set objectPrototypeKeys
      \<and> transactionType t \<notin> set objectPrototypeKeys)"

text \<open>\<open>obj[k] || {}\<close> (or \<open>obj[k] || []\<close>) and \<open>freq[k] = (freq[k] || 0) + 1\<close>.\<close>

definition orEmpty :: "'a list option \<Rightarrow> 'a list" where
  "orEmpty v = (case v of None \<Rightarrow> [] | Some obj \<Rightarrow> obj)"

definition bump :: "(string \<times> nat) list \<Rightarrow> string \<Rightarrow> (string \<times> nat) list" where
  "bump freq k = objSet freq k ((case map_of freq k of None \<Rightarrow> 0 | Some n \<Rightarrow> n) + 1)"

type_synonym FrequencyTables =
  "(string \<times> (string \<times> nat) list) list
   \<times> (string \<times> (string \<times> (string \<times> nat) list) list) list
   \<times> (string \<times> (string \<times> nat) list) list"

text \<open>
  The body of the loop over \<open>allTransactions\<close>, on \<open>typeFrequency\<close>,
  \<open>subtypeFrequency\<close> and \<open>transactionTypeFrequency\<close>.
\<close>

definition frequencyStep :: "FrequencyTables \<Rightarrow> TransactionRecord \<Rightarrow> FrequencyTables" where
  "frequencyStep tables t =
     (case tables of (typeFrequency, subtypeFrequency, transactionTypeFrequency) \<Rightarrow>
        if isDeleted (flags t) then tables
        else
          (let paidToKey = toLowerCase (paidTo t)
           in if paidToKey = [] then tables
              else
                (if expenseType t \<noteq> [] then
                   objSet typeFrequency paidToKey
                     (bump (orEmpty (map_of typeFrequency paidToKey)) (expenseType t))
                 else typeFrequency,
                 if expenseType t \<noteq> [] \<and> expenseSubtype t \<noteq> [] then
                   (let byType = orEmpty (map_of subtypeFrequency paidToKey);
                        bySubtype = orEmpty (map_of byType (expenseType t))
                    in objSet subtypeFrequency paidToKey
                         (objSet byType (expenseType t) (bump bySubtype (expenseSubtype t))))
                 else subtypeFrequency,
                 if transactionType t \<noteq> [] then
                   objSet transactionTypeFrequency paidToKey
                     (bump (orEmpty (map_of transactionTypeFrequency paidToKey))
                        (transactionType t))
                 else transactionTypeFrequency)))"

text \<open>
  \<open>getMostFrequent\<close>: the first entry after the (stable) sort by descending count, \<open>null\<close>
  for a missing or empty table.
\<close>

definition getMostFrequent :: "(string \<times> nat) list option \<Rightarrow> string option" where
  "getMostFrequent freqMap =
     (case freqMap of
        None \<Rightarrow> None
      | Some m \<Rightarrow>
          (case sort_key (\<lambda>e. - int (snd e)) (objEntries m) of
             [] \<Rightarrow> None
           | e # es \<Rightarrow> Some (fst e)))"

text \<open>Truthiness of a suggestion: neither \<open>null\<close> nor the empty string.\<close>

definition isSuggestion :: "string option \<Rightarrow> bool" where
  "isSuggestion s = (s \<noteq> None \<and> s \<noteq> Some [])"

definition keywordRuleText :: "string \<Rightarrow> string" where
  "keywordRuleText kw = ''based on keyword match ('' @ [CHR 0x27] @ kw @ [CHR 0x27] @ '')''"

definition suggestExpenseType :: "FrequencyTables \<Rightarrow> TransactionRecord \<Rightarrow> Recommendation list" where
  "suggestExpenseType tables t =
     (let typeFrequency = fst tables;
          paidToKey = toLowerCase (paidTo t);
          descriptionLower = toLowerCase (description t)
      in if expenseType t = [] then
           (let historical =
                  (if paidToKey \<noteq> [] \<and> map_of typeFrequency paidToKey \<noteq> None
                   then getMostFrequent (map_of typeFrequency paidToKey) else None);
                keywordRule =
                  find (\<lambda>ruleDef. matchedKeyword ruleDef paidToKey descriptionLower \<noteq> None)
                    KEYWORD_RULES;
                suggestion =
                  (if isSuggestion historical then historical
                   else (case keywordRule of
                           None \<Rightarrow> historical
                         | Some ruleDef \<Rightarrow> Some (ruleType ruleDef)));
                rule =
                  (if isSuggestion historical then ''based on historical data''
                   else (case keywordRule of
                           None \<Rightarrow> ''based on historical data''
                         | Some ruleDef \<Rightarrow>
                             keywordRuleText
                               (the (matchedKeyword ruleDef paidToKey descriptionLower))))
            in if isSuggestion suggestion then
                 [\<lparr>rid = [], rtype = MissingField, transactionIds = [tid t],
                   affectedField = Some ExpenseType,
                   originalValue = Str (expenseType t),
                   suggestedValue = the suggestion,
                   confidence = Some (if strIncludes rule ''keyword'' then 4 / 5 else 13 / 20),
                   rdescription =
                     ''Suggest filling missing Expense Type with \"'' @ the suggestion @ ''\" ''
                       @ rule @ '' for transaction at row '' @ rowText t @ ''.'',
                   status = Pending\<rparr>]
               else [])
         else [])"

definition suggestExpenseSubtype ::
  "FrequencyTables \<Rightarrow> TransactionRecord \<Rightarrow> Recommendation list" where
  "suggestExpenseSubtype tables t =
     (let subtypeFrequency = fst (snd tables);
          paidToKey = toLowerCase (paidTo t);
          descriptionLower = toLowerCase (description t)
      in if expenseType t \<noteq> [] \<and> expenseSubtype t = [] then
           (let byType = orEmpty (map_of subtypeFrequency paidToKey);
                historical =
                  (if paidToKey \<noteq> [] \<and> map_of subtypeFrequency paidToKey \<noteq> None
                      \<and> map_of byType (expenseType t) \<noteq> None
                   then getMostFrequent (map_of byType (expenseType t)) else None);
                keywordRule =
                  find (\<lambda>ruleDef. ruleType ruleDef = expenseType t
                          \<and> matchedKeyword ruleDef paidToKey descriptionLower \<noteq> None)
                    KEYWORD_RULES;
                suggestion =
                  (if isSuggestion historical then historical
                   else (case keywordRule of
                           None \<Rightarrow> historical
                         | Some ruleDef \<Rightarrow> Some (ruleSubtype ruleDef)));
                rule =
                  (if isSuggestion historical then ''based on historical data''
                   else (case keywordRule of
                           None \<Rightarrow> ''based on historical data''
                         | Some ruleDef \<Rightarrow>
                             keywordRuleText
                               (the (matchedKeyword ruleDef paidToKey descriptionLower))
                               @ '' for type '' @ expenseType t))
            in if isSuggestion suggestion then
                 [\<lparr>rid = [], rtype = MissingField, transactionIds = [tid t],
                   affectedField = Some ExpenseSubtype,
                   originalValue = Str (expenseSubtype t),
                   suggestedValue = the suggestion,
                   confidence = Some (if strIncludes rule ''keyword'' then 3 / 4 else 3 / 5),
                   rdescription =
                     ''Suggest filling missing Expense Subtype with \"'' @ the suggestion
                       @ ''\" '' @ rule @ '' for transaction at row '' @ rowText t @ ''.'',
                   status = Pending\<rparr>]
               else [])
         else [])"

definition suggestTransactionType ::
  "FrequencyTables \<Rightarrow> TransactionRecord \<Rightarrow> Recommendation list" where
  "suggestTransactionType tables t =
     (let transactionTypeFrequency = snd (snd tables);
          paidToKey = toLowerCase (paidTo t)
      in if transactionType t = [] then
           (let suggestion =
                  (if paidToKey \<noteq> [] \<and> map_of transactionTypeFrequency paidToKey \<noteq> None
                   then getMostFrequent (map_of transactionTypeFrequency paidToKey) else None)
            in if isSuggestion suggestion then
                 [\<lparr>rid = [], rtype = MissingField, transactionIds = [tid t],
                   affectedField = Some TransactionType,
                   originalValue = Str (transactionType t),
                   suggestedValue = the suggestion,
                   confidence = Some (3 / 5),
                   rdescription =
                     ''Suggest filling missing Transaction Type with \"'' @ the suggestion
                       @ ''\" based on historical data for \"'' @ paidTo t @ ''\" at row ''
                       @ rowText t @ ''.'',
                   status = Pending\<rparr>]
               else [])
         else [])"

definition suggestMissingFieldRecommendations ::
  "TransactionRecord list \<Rightarrow> TransactionRecord list \<Rightarrow> Recommendation list" where
  "suggestMissingFieldRecommendations transactionsToProcess allTransactions =
     (let tables = foldl frequencyStep ([], [], []) allTransactions
      in concat (map (\<lambda>t. if isDeleted (flags t) then []
                          else suggestExpenseType tables t @ suggestExpenseSubtype tables t
                                 @ suggestTransactionType tables t)
                   transactionsToProcess))"

section \<open>Classification rule (services/rules/classificationRule.ts)\<close>

record CategoryCount =
  ccType :: string
  ccSubtype :: string
  ccCount :: nat

text \<open>\<open>existingEntry.count++\<close> on the entry that \<open>find\<close> returns, the first that matches.\<close>

fun incrementFirst :: "(CategoryCount \<Rightarrow> bool) \<Rightarrow> CategoryCount list \<Rightarrow> CategoryCount list" where
  "incrementFirst P [] = []"
| "incrementFirst P (e # es) =
     (if P e then e\<lparr>ccCount := ccCount e + 1\<rparr> # es else e # incrementFirst P es)"

text \<open>
  \<open>paidToCategoryMap\<close> is a plain object. For a key that names a property of
  \<open>Object.prototype\<close> and is not an own property, \<open>paidToCategoryMap[paidToKey] || []\<close> is
  the inherited value (a function, or the prototype object for \<open>__proto__\<close>), which has no
  \<open>find\<close> method: the call throws a \<open>TypeError\<close>.
\<close>

definition categoryStep ::
  "(string \<times> CategoryCount list) list \<Rightarrow> TransactionRecord
   \<Rightarrow> error + (string \<times> CategoryCount list) list" where
  "categoryStep paidToCategoryMap t =
     (if isDeleted (flags t) \<or> paidTo t = [] \<or> expenseType t = [] \<or> expenseSubtype t = []
      then Inr paidToCategoryMap
      else
        (let paidToKey = toLowerCase (paidTo t);
             same = (\<lambda>e. ccType e = expenseType t \<and> ccSubtype e = expenseSubtype t);
             added = (\<lambda>entries.
               if find same entries \<noteq> None then incrementFirst same entries
               else entries @ [\<lparr>ccType = expenseType t, ccSubtype = expenseSubtype t,
                                 ccCount = 1\<rparr>])
         in case objGet paidToCategoryMap paidToKey of
              Inherited \<Rightarrow> Inl TypeError
            | Absent \<Rightarrow> Inr (objSet paidToCategoryMap paidToKey (added []))
            | Own entries \<Rightarrow> Inr (objSet paidToCategoryMap paidToKey (added entries))))"

text \<open>A \<open>forEach\<close> that updates a state and whose body may throw.\<close>

fun forEachState :: "('s \<Rightarrow> 'a \<Rightarrow> error + 's) \<Rightarrow> 's \<Rightarrow> 'a list \<Rightarrow> error + 's" where
  "forEachState f s [] = Inr s"
| "forEachState f s (x # xs) =
     (case f s x of Inl e \<Rightarrow> Inl e | Inr s' \<Rightarrow> forEachState f s' xs)"

definition paidToCategoryMapOf ::
  "TransactionRecord list \<Rightarrow> error + (string \<times> CategoryCount list) list" where
  "paidToCategoryMapOf allTransactions =
     (case forEachState categoryStep [] allTransactions of
        Inl e \<Rightarrow> Inl e
      | Inr paidToCategoryMap \<Rightarrow>
          Inr (map (\<lambda>(paidToKey, entries).
                      (paidToKey, sort_key (\<lambda>e. - int (ccCount e)) entries))
                 paidToCategoryMap))"

text \<open>The first rule of the keyword table with a matching keyword, and that keyword.\<close>

definition keywordSuggestionOf :: "string \<Rightarrow> string \<Rightarrow> (KeywordRule \<times> string) option" where
  "keywordSuggestionOf paidToKey descriptionLower =
     (case find (\<lambda>ruleDef. isSuggestion (matchedKeyword ruleDef paidToKey descriptionLower))
             KEYWORD_RULES of
        None \<Rightarrow> None
      | Some ruleDef \<Rightarrow> Some (ruleDef, the (matchedKeyword ruleDef paidToKey descriptionLower)))"

definition classificationRec ::
  "TransactionRecord \<Rightarrow> Field \<Rightarrow> string \<Rightarrow> string \<Rightarrow> rat \<Rightarrow> string \<Rightarrow> Recommendation" where
  "classificationRec t field original suggested conf text =
     \<lparr>rid = [], rtype = Classification, transactionIds = [tid t],
      affectedField = Some field, originalValue = Str original, suggestedValue = suggested,
      confidence = Some conf, rdescription = text, status = Pending\<rparr>"

text \<open>Scenario 1 of the loop body: the suggestions from a keyword match.\<close>

definition classifyByKeyword :: "TransactionRecord \<Rightarrow> Recommendation list" where
  "classifyByKeyword t =
     (case keywordSuggestionOf (toLowerCase (paidTo t)) (toLowerCase (description t)) of
        None \<Rightarrow> []
      | Some (ruleDef, keyword) \<Rightarrow>
          if expenseType t \<noteq> ruleType ruleDef \<or> expenseSubtype t \<noteq> ruleSubtype ruleDef then
            (if expenseType t = [] then
               [classificationRec t ExpenseType (expenseType t) (ruleType ruleDef) (17 / 20)
                  (''Suggest classifying as Type: \"'' @ ruleType ruleDef
                     @ ''\" based on keyword \"'' @ keyword @ ''\" for transaction at row ''
                     @ rowText t @ ''.''),
                classificationRec t ExpenseSubtype (expenseSubtype t) (ruleSubtype ruleDef)
                  (4 / 5)
                  (''Suggest classifying as Subtype: \"'' @ ruleSubtype ruleDef @ ''\" (Type: ''
                     @ ruleType ruleDef @ '') based on keyword \"'' @ keyword
                     @ ''\" for transaction at row '' @ rowText t @ ''.'')]
             else if expenseType t = ruleType ruleDef
                     \<and> expenseSubtype t \<noteq> ruleSubtype ruleDef \<and> expenseSubtype t = [] then
               [classificationRec t ExpenseSubtype (expenseSubtype t) (ruleSubtype ruleDef)
                  (3 / 4)
                  (''Suggest Subtype: \"'' @ ruleSubtype ruleDef @ ''\" for Type \"''
                     @ expenseType t @ ''\" based on keyword \"'' @ keyword
                     @ ''\" for transaction at row '' @ rowText t @ ''.'')]
             else [])
          else [])"

text \<open>
  The \<open>length\<close> of an inherited value is the number of parameters of the function: it is
  positive for these names. The prototype object read under \<open>__proto__\<close> has no \<open>length\<close>.
\<close>

definition inheritedLengthPositive :: "string \<Rightarrow> bool" where
  "inheritedLengthPositive k =
     (k \<in> set [''constructor'', ''__defineGetter__'', ''__defineSetter__'', ''hasOwnProperty'',
                ''__lookupGetter__'', ''__lookupSetter__'', ''isPrototypeOf'',
                ''propertyIsEnumerable''])"

text \<open>
  Scenario 2: the suggestions from the most frequent past classification. When
  \<open>paidToCategoryMap[paidToKey]\<close> is an inherited function of positive \<open>length\<close>,
  \<open>topHistorical\<close> is its property \<open>0\<close>, that is \<open>undefined\<close>, and both branches read
  \<open>topHistorical.type\<close> once the subtype is found empty: a \<open>TypeError\<close>.
\<close>

definition classifyByHistory ::
  "(string \<times> CategoryCount list) list \<Rightarrow> TransactionRecord \<Rightarrow> error + Recommendation list" where
  "classifyByHistory paidToCategoryMap t =
     (let paidToKey = toLowerCase (paidTo t)
      in if paidToKey = [] then Inr []
         else
           (case objGet paidToCategoryMap paidToKey of
              Absent \<Rightarrow> Inr []
            | Inherited \<Rightarrow>
                if inheritedLengthPositive paidToKey \<and> expenseSubtype t = [] then Inl TypeError
                else Inr []
            | Own [] \<Rightarrow> Inr []
            | Own (topHistorical # others) \<Rightarrow>
                if expenseType t = [] \<and> expenseSubtype t = [] then
                  Inr [classificationRec t ExpenseType (expenseType t) (ccType topHistorical)
                     (7 / 10)
                     (''Suggest Type \"'' @ ccType topHistorical
                        @ ''\" based on frequent past classifications for \"'' @ paidTo t
                        @ ''\" (row '' @ rowText t @ '').''),
                   classificationRec t ExpenseSubtype (expenseSubtype t)
                     (ccSubtype topHistorical) (13 / 20)
                     (''Suggest Subtype \"'' @ ccSubtype topHistorical
                        @ ''\" based on frequent past classifications for \"'' @ paidTo t
                        @ ''\" (row '' @ rowText t @ '').'')]
                else if expenseType t \<noteq> [] \<and> expenseSubtype t = []
                        \<and> ccType topHistorical = expenseType t then
                  Inr [classificationRec t ExpenseSubtype (expenseSubtype t)
                     (ccSubtype topHistorical) (13 / 20)
                     (''Suggest Subtype \"'' @ ccSubtype topHistorical @ ''\" for Type \"''
                        @ expenseType t @ ''\" based on frequent past classifications for \"''
                        @ paidTo t @ ''\" (row '' @ rowText t @ '').'')]
                else Inr []))"

definition classifyTransaction ::
  "(string \<times> CategoryCount list) list \<Rightarrow> TransactionRecord \<Rightarrow> error + Recommendation list" where
  "classifyTransaction paidToCategoryMap t =
     (if isDeleted (flags t) then Inr []
      else case classifyByHistory paidToCategoryMap t of
             Inl e \<Rightarrow> Inl e
           | Inr historical \<Rightarrow> Inr (classifyByKeyword t @ historical))"

definition suggestClassificationRecommendations ::
  "TransactionRecord list \<Rightarrow> TransactionRecord list \<Rightarrow> error + Recommendation list" where
  "suggestClassificationRecommendations transactionsToProcess allTransactions =
     (case paidToCategoryMapOf allTransactions of
        Inl e \<Rightarrow> Inl e
      | Inr paidToCategoryMap \<Rightarrow>
          forEachPush (classifyTransaction paidToCategoryMap) transactionsToProcess)"

section \<open>Reconciliation (services/recommendationService.ts)\<close>

text \<open>
  The identity of a recommendation. The code turns the identity object into a string with
  \<open>JSON.stringify\<close> and uses that string as a key of a \<open>Set\<close> and of a \<open>Map\<close>, that is, it
  compares it for equality only; \<open>JSON.stringify\<close> is injective on these objects, so the
  object stands for its text here, and the sorted id list for the text
  \<open>transactionIdsString\<close>.
\<close>

record RecommendationIdentity =
  idType :: RecommendationType
  transactionIdsString :: "string list"
  idAffectedField :: "Field option"
  idOriginalValue :: JsValue

definition getRecommendationIdentity :: "Recommendation \<Rightarrow> RecommendationIdentity" where
  "getRecommendationIdentity rec =
     \<lparr>idType = rtype rec,
      transactionIdsString = sort (transactionIds rec),
      idAffectedField = affectedField rec,
      idOriginalValue =
        (if rtype rec = MerchantNormalization \<or> rtype rec = MissingField
            \<or> rtype rec = Classification
         then originalValue rec else Undefined)\<rparr>"

text \<open>
  The ids of a run: \<open>uuid k\<close> is the result of the k-th call of
  \<open>self.crypto.randomUUID()\<close>, counted from 0.
\<close>

definition drawIds :: "(nat \<Rightarrow> string) \<Rightarrow> Recommendation list \<Rightarrow> Recommendation list" where
  "drawIds uuid recs = map (\<lambda>(k, r). r\<lparr>rid := uuid k\<rparr>) (enumerate 0 recs)"

text \<open>Step 2: the candidates of the four rules, or the error of the rule that throws.\<close>

definition candidateRecsFromRules ::
  "(nat \<Rightarrow> string) \<Rightarrow> TransactionRecord list \<Rightarrow> error + Recommendation list" where
  "candidateRecsFromRules uuid transactionsFromState =
     (let activeTransactionsForRules =
            filter (\<lambda>t. \<not> isDeleted (flags t)) transactionsFromState
      in case normalizeMerchantRecommendations activeTransactionsForRules of
           Inl e \<Rightarrow> Inl e
         | Inr merchantRecs \<Rightarrow>
             (case suggestClassificationRecommendations activeTransactionsForRules
                     transactionsFromState of
                Inl e \<Rightarrow> Inl e
              | Inr classificationRecs \<Rightarrow>
                  Inr (drawIds uuid
                         (findDuplicateRecommendations activeTransactionsForRules
                          @ merchantRecs
                          @ suggestMissingFieldRecommendations activeTransactionsForRules
                              transactionsFromState
                          @ classificationRecs))))"

text \<open>
  Step 1, the body of the first loop: the state is \<open>outputRecommendations\<close> and
  \<open>processedIdentities\<close>.
\<close>

definition carryStep ::
  "string set \<Rightarrow> Recommendation list \<times> RecommendationIdentity set \<Rightarrow> Recommendation
   \<Rightarrow> Recommendation list \<times> RecommendationIdentity set" where
  "carryStep existingTransactionIds st rec =
     (if status rec = Applied \<or> status rec = Ignored then
        (let validTargetIds =
               filter (\<lambda>txId. txId \<in> existingTransactionIds) (transactionIds rec);
             identityKey = getRecommendationIdentity rec;
             outputRecommendations =
               (if length (transactionIds rec) > 0 \<and> length validTargetIds = 0 then
                  fst st @ [rec\<lparr>transactionIds := [],
                              rdescription := rdescription rec @ '' (Original targets deleted)''\<rparr>]
                else if length validTargetIds > 0 \<or> length (transactionIds rec) = 0 then
                  fst st @ [rec\<lparr>transactionIds := validTargetIds\<rparr>]
                else fst st)
         in (outputRecommendations,
             if find (\<lambda>r. rid r = rid rec) outputRecommendations \<noteq> None
             then insert identityKey (snd st) else snd st))
      else st)"

text \<open>Step 3: \<open>existingPendingRecsMap\<close>, and the body of the loop over the candidates.\<close>

definition pendingStep ::
  "(RecommendationIdentity \<rightharpoonup> Recommendation) \<Rightarrow> Recommendation
   \<Rightarrow> (RecommendationIdentity \<rightharpoonup> Recommendation)" where
  "pendingStep existingPendingRecsMap rec =
     (if status rec = Pending then existingPendingRecsMap(getRecommendationIdentity rec \<mapsto> rec)
      else existingPendingRecsMap)"

definition mergeStep ::
  "(RecommendationIdentity \<rightharpoonup> Recommendation)
   \<Rightarrow> Recommendation list \<times> RecommendationIdentity set \<Rightarrow> Recommendation
   \<Rightarrow> Recommendation list \<times> RecommendationIdentity set" where
  "mergeStep existingPendingRecsMap st candidateRec =
     (let candidateIdentityKey = getRecommendationIdentity candidateRec
      in if candidateIdentityKey \<in> snd st then st
         else
           (fst st @
              [case existingPendingRecsMap candidateIdentityKey of
                 Some existingPendingRec \<Rightarrow>
                   candidateRec\<lparr>rid := rid existingPendingRec, status := Pending\<rparr>
               | None \<Rightarrow> candidateRec],
            insert candidateIdentityKey (snd st)))"

text \<open>
  Step 4. \<open>currentRecOf\<close> is the copy with the target ids filtered, and \<open>skipped\<close> says
  that the loop body reaches one of its two \<open>continue\<close> statements for \<open>rec\<close>.
\<close>

definition currentRecOf :: "string set \<Rightarrow> Recommendation \<Rightarrow> Recommendation" where
  "currentRecOf existingTransactionIds rec =
     rec\<lparr>transactionIds :=
       filter (\<lambda>txId. txId \<in> existingTransactionIds) (transactionIds rec)\<rparr>"

definition skipped :: "string set \<Rightarrow> string set \<Rightarrow> Recommendation \<Rightarrow> bool" where
  "skipped existingTransactionIds softDeletedTransactionIds rec =
     (let currentRec = currentRecOf existingTransactionIds rec
      in status currentRec = Pending
         \<and> ((length (transactionIds currentRec) = 0 \<and> length (transactionIds rec) > 0)
            \<or> (let allTargetsSoftDeleted =
                      (length (transactionIds currentRec) > 0
                       \<and> (\<forall>txId \<in> set (transactionIds currentRec).
                             txId \<in> softDeletedTransactionIds))
                in rtype currentRec \<noteq> Duplicate \<and> allTargetsSoftDeleted)))"

text \<open>
  \<open>finalUniqueRecsById\<close> is a \<open>Map\<close> from id to recommendation in which every entry is
  stored under its own id: it is kept as the list of its values in the order in which
  the keys were first set, and \<open>mapSet\<close> is \<open>finalUniqueRecsById.set(rec.id, rec)\<close>.
\<close>

fun mapSet :: "Recommendation list \<Rightarrow> Recommendation \<Rightarrow> Recommendation list" where
  "mapSet [] rec = [rec]"
| "mapSet (r # rs) rec = (if rid r = rid rec then rec # rs else r # mapSet rs rec)"

definition finalStep ::
  "string set \<Rightarrow> string set \<Rightarrow> Recommendation list \<Rightarrow> Recommendation \<Rightarrow> Recommendation list" where
  "finalStep existingTransactionIds softDeletedTransactionIds finalUniqueRecsById rec =
     (if skipped existingTransactionIds softDeletedTransactionIds rec then finalUniqueRecsById
      else
        (let currentRec = currentRecOf existingTransactionIds rec
         in case find (\<lambda>r. rid r = rid currentRec) finalUniqueRecsById of
              Some existingInMap \<Rightarrow>
                if status existingInMap = Applied \<or> status existingInMap = Ignored
                then finalUniqueRecsById
                else mapSet finalUniqueRecsById currentRec
            | None \<Rightarrow> mapSet finalUniqueRecsById currentRec))"

text \<open>Steps 1, 3, 4 and 5 for given candidates.\<close>

definition reconcile ::
  "TransactionRecord list \<Rightarrow> Recommendation list \<Rightarrow> Recommendation list \<Rightarrow> Recommendation list" where
  "reconcile transactionsFromState currentRecommendations candidateRecs =
     (let existingTransactionIds = set (map tid transactionsFromState);
          carried = foldl (carryStep existingTransactionIds) ([], {}) currentRecommendations;
          existingPendingRecsMap = foldl pendingStep Map.empty currentRecommendations;
          merged = foldl (mergeStep existingPendingRecsMap) carried candidateRecs;
          softDeletedTransactionIds =
            set (map tid (filter (\<lambda>tx. isDeleted (flags tx)) transactionsFromState))
      in foldl (finalStep existingTransactionIds softDeletedTransactionIds) [] (fst merged))"

definition generateRecommendations ::
  "(nat \<Rightarrow> string) \<Rightarrow> TransactionRecord list \<Rightarrow> Recommendation list
   \<Rightarrow> error + Recommendation list" where
  "generateRecommendations uuid transactionsFromState currentRecommendations =
     (case candidateRecsFromRules uuid transactionsFromState of
        Inl e \<Rightarrow> Inl e
      | Inr candidateRecs \<Rightarrow>
          Inr (reconcile transactionsFromState currentRecommendations candidateRecs))"

section \<open>The similarity primitive of the specification\<close>

text \<open>
  The Levenshtein distance by its recurrence: \<open>lev a b i j\<close> is the distance between the
  first \<open>i\<close> characters of \<open>a\<close> and the first \<open>j\<close> characters of \<open>b\<close>.
\<close>

fun lev :: "string \<Rightarrow> string \<Rightarrow> nat \<Rightarrow> nat \<Rightarrow> nat" where
  "lev a b 0 j = j"
| "lev a b (Suc i) 0 = Suc i"
| "lev a b (Suc i) (Suc j) =
     min (min (lev a b i (Suc j) + 1) (lev a b (Suc i) j + 1))
       (lev a b i j + (if a ! i = b ! j then 0 else 1))"

definition levenshteinDistance :: "string \<Rightarrow> string \<Rightarrow> nat" where
  "levenshteinDistance a b = lev a b (length a) (length b)"

text \<open>
  The contract of the specification:
  \<open>1 - levenshteinDistance(normalize(a), normalize(b)) / max(len(normalize(a)), len(normalize(b)))\<close>,
  and 1 when both normalized strings are empty; \<open>normalize\<close> is the function of the
  merchant rule.
\<close>

definition normalizedEditSimilarity :: "string \<Rightarrow> string \<Rightarrow> rat" where
  "normalizedEditSimilarity a b =
     (if normalize a = [] \<and> normalize b = [] then 1
      else 1 - of_nat (levenshteinDistance (normalize a) (normalize b))
                 / of_nat (max (length (normalize a)) (length (normalize b))))"

text \<open>
  The short-circuit of the specification: it rejects a pair whose normalized lengths differ
  by more than 5 and have a ratio below 0.5.
\<close>

definition lengthGuardRejects :: "string \<Rightarrow> string \<Rightarrow> bool" where
  "lengthGuardRejects a b =
     (\<bar>int (length (normalize a)) - int (length (normalize b))\<bar> > 5
      \<and> (of_nat (min (length (normalize a)) (length (normalize b)))
           / of_nat (max (length (normalize a)) (length (normalize b))) :: rat) < 1 / 2)"

section \<open>The application as a transition system (App.tsx and the views)\<close>

text \<open>
  Both views receive the recommendations all of whose targets are transactions that exist
  and are not soft-deleted
  (\<open>recommendations.filter(r => r.transactionIds.every(txId => transactions.find(t => t.id === txId && !t.flags.isDeleted)))\<close>).
\<close>

definition shown :: "AppState \<Rightarrow> Recommendation list" where
  "shown st =
     filter (\<lambda>r. \<forall>txId \<in> set (transactionIds r).
                    \<exists>t \<in> set (fst st). tid t = txId \<and> \<not> isDeleted (flags t))
       (snd st)"

text \<open>
  The handlers are closures of the component \<open>App\<close> and are called from buttons only.
  \<open>RecommendationCard\<close> renders its Apply and Ignore buttons when the status of its
  recommendation is pending, and they pass the id of that recommendation; the modal of
  \<open>DataTableView\<close> lists the pending recommendations of one transaction with the same two
  buttons. \<open>offered st i\<close>: one of the recommendations shown is pending and has the id
  \<open>i\<close>.
\<close>

definition offered :: "AppState \<Rightarrow> string \<Rightarrow> bool" where
  "offered st recommendationId =
     (\<exists>rec \<in> set (shown st). status rec = Pending \<and> rid rec = recommendationId)"

text \<open>
  The bulk buttons of \<open>RecommendationsView\<close> pass \<open>group.recommendationIds\<close>: the ids of
  the pending MerchantNormalization recommendations shown that suggest the same canonical
  name.
\<close>

definition groupIds :: "AppState \<Rightarrow> string \<Rightarrow> string list" where
  "groupIds st canonical =
     map rid
       (filter (\<lambda>rec. rtype rec = MerchantNormalization \<and> status rec = Pending
                  \<and> suggestedValue rec = canonical)
          (shown st))"

text \<open>
  One step of the application: a button is pressed, or the transaction list is changed
  (a transaction added, edited or deleted), or the effect that follows a change of the
  transaction list replaces the recommendations by the result of
  \<open>generateRecommendations(transactions, recommendations)\<close>.
\<close>

inductive appStep :: "AppState \<Rightarrow> AppState \<Rightarrow> bool" where
  applyOne: "offered st i \<Longrightarrow> appStep st (applyRecommendation i st)"
| ignoreOne: "offered st i \<Longrightarrow> appStep st (ignoreRecommendation i st)"
| applyGroup: "appStep st (applyMultipleRecommendations (groupIds st canonical) st)"
| ignoreGroup: "appStep st (ignoreMultipleRecommendations (groupIds st canonical) st)"
| editTransactions: "appStep st (transactions, snd st)"
| regenerate:
    "generateRecommendations uuid (fst st) (snd st) = Inr out \<Longrightarrow> appStep st (fst st, out)"

section \<open>Notions used in the statements and in the proofs\<close>

text \<open>
  The number of targets the data model prescribes for a recommendation: two for a
  duplicate pair, one otherwise.
\<close>

definition targetCount :: "RecommendationType \<Rightarrow> nat" where
  "targetCount ty = (if ty = Duplicate then 2 else 1)"

text \<open>
  What every rule guarantees of the recommendations it builds from the active
  transactions: they are pending, their targets are ids of active transactions, and they
  have as many targets as their type prescribes.
\<close>

definition candidateOf :: "TransactionRecord list \<Rightarrow> Recommendation \<Rightarrow> bool" where
  "candidateOf active c =
     (status c = Pending \<and> set (transactionIds c) \<subseteq> tid ` set active
      \<and> length (transactionIds c) = targetCount (rtype c))"



text \<open>The steps of the reconciliation in closed form.\<close>

definition isTerminal :: "Recommendation \<Rightarrow> bool" where
  "isTerminal rec = (status rec = Applied \<or> status rec = Ignored)"

text \<open>What step 1 pushes for an applied or ignored recommendation.\<close>

definition carried :: "string set \<Rightarrow> Recommendation \<Rightarrow> Recommendation" where
  "carried existingTransactionIds rec =
     (let validTargetIds =
            filter (\<lambda>txId. txId \<in> existingTransactionIds) (transactionIds rec)
      in if transactionIds rec \<noteq> [] \<and> validTargetIds = [] then
           rec\<lparr>transactionIds := [],
               rdescription := rdescription rec @ '' (Original targets deleted)''\<rparr>
         else rec\<lparr>transactionIds := validTargetIds\<rparr>)"

text \<open>The elements of a list whose key is neither in \<open>processed\<close> nor the key of an earlier element.\<close>

fun keptBy :: "('a \<Rightarrow> 'k) \<Rightarrow> 'k set \<Rightarrow> 'a list \<Rightarrow> 'a list" where
  "keptBy f processed [] = []"
| "keptBy f processed (x # xs) =
     (if f x \<in> processed then keptBy f processed xs
      else x # keptBy f (insert (f x) processed) xs)"

text \<open>What step 3 pushes for a candidate that it keeps.\<close>

definition assignId ::
  "(RecommendationIdentity \<rightharpoonup> Recommendation) \<Rightarrow> Recommendation \<Rightarrow> Recommendation" where
  "assignId existingPendingRecsMap candidateRec =
     (case existingPendingRecsMap (getRecommendationIdentity candidateRec) of
        Some existingPendingRec \<Rightarrow>
          candidateRec\<lparr>rid := rid existingPendingRec, status := Pending\<rparr>
      | None \<Rightarrow> candidateRec)"

definition activeOf :: "TransactionRecord list \<Rightarrow> TransactionRecord list" where
  "activeOf transactions = filter (\<lambda>t. \<not> isDeleted (flags t)) transactions"

definition existingIds :: "TransactionRecord list \<Rightarrow> string set" where
  "existingIds transactions = set (map tid transactions)"

definition softDeletedIds :: "TransactionRecord list \<Rightarrow> string set" where
  "softDeletedIds transactions =
     set (map tid (filter (\<lambda>tx. isDeleted (flags tx)) transactions))"

definition pendingMapOf ::
  "Recommendation list \<Rightarrow> (RecommendationIdentity \<rightharpoonup> Recommendation)" where
  "pendingMapOf prev = foldl pendingStep Map.empty prev"

definition mergedOf ::
  "TransactionRecord list \<Rightarrow> Recommendation list \<Rightarrow> Recommendation list
   \<Rightarrow> Recommendation list" where
  "mergedOf R prev cands =
     map (assignId (pendingMapOf prev))
       (keptBy getRecommendationIdentity
          (getRecommendationIdentity ` set (filter isTerminal prev)) cands)"

text \<open>The k-th recommendation of a run with its id, and the candidates that step 3 keeps.\<close>

definition draftRec :: "(nat \<Rightarrow> string) \<Rightarrow> nat \<times> Recommendation \<Rightarrow> Recommendation" where
  "draftRec uuid kd = (snd kd)\<lparr>rid := uuid (fst kd)\<rparr>"


text \<open>
  How a step may change the recommendations: the ids stay distinct, a recommendation
  changes its status from pending to applied or ignored only, and an applied or ignored
  recommendation stays in the list.
\<close>

definition statusKept :: "Recommendation list \<Rightarrow> Recommendation list \<Rightarrow> bool" where
  "statusKept recs recs' =
     (distinct (map rid recs')
      \<and> (\<forall>r \<in> set recs. \<forall>x \<in> set recs'. rid x = rid r \<longrightarrow>
             status x = status r
             \<or> (status r = Pending \<and> (status x = Applied \<or> status x = Ignored)))
      \<and> (\<forall>r \<in> set recs. status r \<noteq> Pending \<longrightarrow> (\<exists>x \<in> set recs'. rid x = rid r)))"

section \<open>Examples\<close>



definition exampleTransaction :: TransactionRecord where
  "exampleTransaction = \<lparr>tid = ''t1'', dateOfPayment = ''2024-01-05'', paidTo = ''AMZN MKTP'',
     amountPaid = 25, expenseType = ''Shopping'', expenseSubtype = '''', description = ''order'',
     transactionType = ''Card'', originalValues = None, flags = noFlags, rowNum = Some 2\<rparr>"

definition exampleRecommendation :: Recommendation where
  "exampleRecommendation = \<lparr>rid = ''r1'', rtype = MerchantNormalization,
     transactionIds = [''t1''], affectedField = Some PaidTo, originalValue = Str ''AMZN MKTP'',
     suggestedValue = ''AMZN Mktp US'', confidence = Some (9 / 10),
     rdescription = ''Normalize merchant name'', status = Pending\<rparr>"


text \<open>
  Supplies of ids, one for each run: the run named \<open>c\<close> draws the ids \<open>c\<close>, \<open>cc\<close>,
  \<open>ccc\<close> and so on.
\<close>

definition exampleUuid :: "char \<Rightarrow> nat \<Rightarrow> string" where
  "exampleUuid c k = replicate (Suc k) c"




text \<open>A transaction without expense type, and the first recommendation that the run \<open>u\<close> on it yields.\<close>

definition uberRecord :: TransactionRecord where
  "uberRecord = \<lparr>tid = ''9'', dateOfPayment = ''2024-02-01'', paidTo = ''Uber'',
     amountPaid = 12, expenseType = '''', expenseSubtype = '''', description = ''ride'',
     transactionType = ''Card'', originalValues = None, flags = noFlags, rowNum = Some 3\<rparr>"

definition uberRecommendation :: Recommendation where
  "uberRecommendation =
     \<lparr>rid = ''u'', rtype = MissingField, transactionIds = [''9''],
      affectedField = Some ExpenseType, originalValue = Str '''', suggestedValue = ''Travel'',
      confidence = Some (4 / 5),
      rdescription =
        ''Suggest filling missing Expense Type with \"Travel\" '' @ keywordRuleText ''uber''
          @ '' for transaction at row 3.'',
      status = Pending\<rparr>"

text \<open>The same recommendation after the user has ignored it.\<close>

definition uberIgnored :: Recommendation where
  "uberIgnored = uberRecommendation\<lparr>status := Ignored\<rparr>"

text \<open>What the examples show of a recommendation.\<close>

definition summary ::
  "Recommendation \<Rightarrow> string \<times> RecommendationType \<times> Field option \<times> Status" where
  "summary r = (rid r, rtype r, affectedField r, status r)"

text \<open>The state after the user has applied the recommendation to the transaction.\<close>

definition uberApplied :: AppState where
  "uberApplied = applyRecommendation ''u'' ([uberRecord], [uberRecommendation])"

section \<open>Properties of the handlers\<close>

lemma applyToTransaction_untouched:
  "tid t \<notin> set (transactionIds recommendation) \<Longrightarrow> applyToTransaction recommendation t = t"
  by (simp add: applyToTransaction_def)

lemma applyToTransaction_fixed_fields:
  "tid (applyToTransaction r t) = tid t"
  "dateOfPayment (applyToTransaction r t) = dateOfPayment t"
  "amountPaid (applyToTransaction r t) = amountPaid t"
  "description (applyToTransaction r t) = description t"
  "rowNum (applyToTransaction r t) = rowNum t"
  by (simp_all add: applyToTransaction_def Let_def)

lemma applyToTransaction_other_fields:
  "affectedField r \<noteq> Some PaidTo \<Longrightarrow> paidTo (applyToTransaction r t) = paidTo t"
  "affectedField r \<noteq> Some ExpenseType \<Longrightarrow> expenseType (applyToTransaction r t) = expenseType t"
  "affectedField r \<noteq> Some ExpenseSubtype \<Longrightarrow>
     expenseSubtype (applyToTransaction r t) = expenseSubtype t"
  "affectedField r \<noteq> Some TransactionType \<Longrightarrow>
     transactionType (applyToTransaction r t) = transactionType t"
  by (simp_all add: applyToTransaction_def Let_def)

lemma applyToTransaction_snapshot_kept:
  "ovDateOfPayment (snapshot (applyToTransaction r t)) = ovDateOfPayment (snapshot t)"
  "ovAmountPaid (snapshot (applyToTransaction r t)) = ovAmountPaid (snapshot t)"
  "ovDescription (snapshot (applyToTransaction r t)) = ovDescription (snapshot t)"
  "ovRowNum (snapshot (applyToTransaction r t)) = ovRowNum (snapshot t)"
  by (simp_all add: applyToTransaction_def Let_def snapshot_def)

lemma applyToTransaction_snapshot_paidTo:
  "ovPaidTo (snapshot (applyToTransaction r t)) = ovPaidTo (snapshot t)
   \<or> (ovPaidTo (snapshot t) = None \<and> affectedField r = Some PaidTo
       \<and> ovPaidTo (snapshot (applyToTransaction r t)) = Some (paidTo t))"
  by (simp add: applyToTransaction_def Let_def snapshot_def)

lemma applyToTransaction_snapshot_expenseType:
  "ovExpenseType (snapshot (applyToTransaction r t)) = ovExpenseType (snapshot t)
   \<or> (ovExpenseType (snapshot t) = None \<and> affectedField r = Some ExpenseType
       \<and> ovExpenseType (snapshot (applyToTransaction r t)) = Some (expenseType t))"
  by (simp add: applyToTransaction_def Let_def snapshot_def)

lemma applyToTransaction_snapshot_expenseSubtype:
  "ovExpenseSubtype (snapshot (applyToTransaction r t)) = ovExpenseSubtype (snapshot t)
   \<or> (ovExpenseSubtype (snapshot t) = None \<and> affectedField r = Some ExpenseSubtype
       \<and> ovExpenseSubtype (snapshot (applyToTransaction r t)) = Some (expenseSubtype t))"
  by (simp add: applyToTransaction_def Let_def snapshot_def)

lemma applyToTransaction_snapshot_transactionType:
  "ovTransactionType (snapshot (applyToTransaction r t)) = ovTransactionType (snapshot t)
   \<or> (ovTransactionType (snapshot t) = None \<and> affectedField r = Some TransactionType
       \<and> ovTransactionType (snapshot (applyToTransaction r t)) = Some (transactionType t))"
  by (simp add: applyToTransaction_def Let_def snapshot_def)

text \<open>
  C10 (frame property of apply). When no recommendation has the given id,
  \<open>applyRecommendation\<close> changes nothing. Otherwise, with \<open>recommendation\<close> the one found:
  the two lists keep their lengths; a recommendation with another id is unchanged and one
  with the given id differs from its old value in its status only, which is \<open>Applied\<close>;
  a transaction whose id is not among the recommendation's transactionIds is unchanged;
  every transaction keeps its id, date, amount, description and row number, and keeps each
  of paidTo, expenseType, expenseSubtype and transactionType unless that is the
  recommendation's affected field; in the originalValues snapshot the entries for date,
  amount, description and row number keep their values, and each of the other four
  entries either keeps its value or, being absent before and belonging to the affected
  field, now holds the value the field had before the change.
\<close>

theorem applyRecommendation_frame:
  "case find (\<lambda>rec. rid rec = recommendationId) recs of
     None \<Rightarrow> applyRecommendation recommendationId (ts, recs) = (ts, recs)
   | Some recommendation \<Rightarrow>
       (let ts' = fst (applyRecommendation recommendationId (ts, recs));
            recs' = snd (applyRecommendation recommendationId (ts, recs))
        in length ts' = length ts \<and> length recs' = length recs
         \<and> (\<forall>i < length recs.
               recs' ! i = (if rid (recs ! i) = recommendationId
                            then (recs ! i)\<lparr>status := Applied\<rparr> else recs ! i))
         \<and> (\<forall>i < length ts.
               (tid (ts ! i) \<notin> set (transactionIds recommendation) \<longrightarrow> ts' ! i = ts ! i)
             \<and> tid (ts' ! i) = tid (ts ! i)
             \<and> dateOfPayment (ts' ! i) = dateOfPayment (ts ! i)
             \<and> amountPaid (ts' ! i) = amountPaid (ts ! i)
             \<and> description (ts' ! i) = description (ts ! i)
             \<and> rowNum (ts' ! i) = rowNum (ts ! i)
             \<and> (affectedField recommendation \<noteq> Some PaidTo \<longrightarrow>
                  paidTo (ts' ! i) = paidTo (ts ! i))
             \<and> (affectedField recommendation \<noteq> Some ExpenseType \<longrightarrow>
                  expenseType (ts' ! i) = expenseType (ts ! i))
             \<and> (affectedField recommendation \<noteq> Some ExpenseSubtype \<longrightarrow>
                  expenseSubtype (ts' ! i) = expenseSubtype (ts ! i))
             \<and> (affectedField recommendation \<noteq> Some TransactionType \<longrightarrow>
                  transactionType (ts' ! i) = transactionType (ts ! i))
             \<and> ovDateOfPayment (snapshot (ts' ! i)) = ovDateOfPayment (snapshot (ts ! i))
             \<and> ovAmountPaid (snapshot (ts' ! i)) = ovAmountPaid (snapshot (ts ! i))
             \<and> ovDescription (snapshot (ts' ! i)) = ovDescription (snapshot (ts ! i))
             \<and> ovRowNum (snapshot (ts' ! i)) = ovRowNum (snapshot (ts ! i))
             \<and> (ovPaidTo (snapshot (ts' ! i)) = ovPaidTo (snapshot (ts ! i))
                \<or> (ovPaidTo (snapshot (ts ! i)) = None
                    \<and> affectedField recommendation = Some PaidTo
                    \<and> ovPaidTo (snapshot (ts' ! i)) = Some (paidTo (ts ! i))))
             \<and> (ovExpenseType (snapshot (ts' ! i)) = ovExpenseType (snapshot (ts ! i))
                \<or> (ovExpenseType (snapshot (ts ! i)) = None
                    \<and> affectedField recommendation = Some ExpenseType
                    \<and> ovExpenseType (snapshot (ts' ! i)) = Some (expenseType (ts ! i))))
             \<and> (ovExpenseSubtype (snapshot (ts' ! i)) = ovExpenseSubtype (snapshot (ts ! i))
                \<or> (ovExpenseSubtype (snapshot (ts ! i)) = None
                    \<and> affectedField recommendation = Some ExpenseSubtype
                    \<and> ovExpenseSubtype (snapshot (ts' ! i)) = Some (expenseSubtype (ts ! i))))
             \<and> (ovTransactionType (snapshot (ts' ! i)) = ovTransactionType (snapshot (ts ! i))
                \<or> (ovTransactionType (snapshot (ts ! i)) = None
                    \<and> affectedField recommendation = Some TransactionType
                    \<and> ovTransactionType (snapshot (ts' ! i))
                        = Some (transactionType (ts ! i))))))"
proof (cases "find (\<lambda>rec. rid rec = recommendationId) recs")
  case None
  then show ?thesis by (simp add: applyRecommendation_def)
next
  case (Some recommendation)
  have ts': "fst (applyRecommendation recommendationId (ts, recs))
               = map (applyToTransaction recommendation) ts"
    and recs': "snd (applyRecommendation recommendationId (ts, recs))
               = map (\<lambda>rec. if rid rec = recommendationId then rec\<lparr>status := Applied\<rparr> else rec) recs"
    using Some by (simp_all add: applyRecommendation_def)
  show ?thesis
    unfolding Some option.case Let_def ts' recs'
    using applyToTransaction_snapshot_paidTo [of recommendation]
      applyToTransaction_snapshot_expenseType [of recommendation]
      applyToTransaction_snapshot_expenseSubtype [of recommendation]
      applyToTransaction_snapshot_transactionType [of recommendation]
    by (simp add: applyToTransaction_untouched applyToTransaction_fixed_fields
        applyToTransaction_other_fields applyToTransaction_snapshot_kept)
qed

theorem applyRecommendation_frame_witness:
  "fst (applyRecommendation ''r1'' ([exampleTransaction], [exampleRecommendation])) ! 0
     = exampleTransaction\<lparr>paidTo := ''AMZN Mktp US'',
         originalValues := Some (noOriginalValues\<lparr>ovPaidTo := Some ''AMZN MKTP''\<rparr>),
         flags := noFlags\<lparr>merchantNormalized := True\<rparr>\<rparr>
   \<and> description (fst (applyRecommendation ''r1''
         ([exampleTransaction], [exampleRecommendation])) ! 0) = ''order''
   \<and> snd (applyRecommendation ''r1'' ([exampleTransaction], [exampleRecommendation])) ! 0
     = exampleRecommendation\<lparr>status := Applied\<rparr>"
  using applyRecommendation_frame [where recommendationId = "''r1''"
      and recs = "[exampleRecommendation]" and ts = "[exampleTransaction]"]
  by (simp add: exampleRecommendation_def exampleTransaction_def applyRecommendation_def
      applyToTransaction_def snapshot_def Let_def noOriginalValues_def noFlags_def)

section \<open>Properties of the similarity functions\<close>

text \<open>The table of the merchant rule holds the values of the recurrence, row by row.\<close>

lemma dpRow_lev:
  "j \<le> length b \<Longrightarrow>
   dpRow (a ! i) (drop j b) (map (lev a b i) [j..<Suc (length b)]) (lev a b (Suc i) j)
     = map (lev a b (Suc i)) [Suc j..<Suc (length b)]"
proof (induction "length b - j" arbitrary: j)
  case 0
  then have "j = length b" by simp
  then show ?case by simp
next
  case (Suc n)
  then have j: "j < length b" by simp
  have d: "drop j b = b ! j # drop (Suc j) b"
    using j by (simp add: Cons_nth_drop_Suc)
  have u: "[j..<Suc (length b)] = j # [Suc j..<Suc (length b)]"
    using j by (simp add: upt_conv_Cons del: upt_Suc)
  have u': "[Suc j..<Suc (length b)] = Suc j # [Suc (Suc j)..<Suc (length b)]"
    using j by (simp add: upt_conv_Cons del: upt_Suc)
  have IH: "dpRow (a ! i) (drop (Suc j) b) (map (lev a b i) [Suc j..<Suc (length b)])
              (lev a b (Suc i) (Suc j))
            = map (lev a b (Suc i)) [Suc (Suc j)..<Suc (length b)]"
    using Suc.hyps(2) j by (intro Suc.hyps(1)) simp_all
  have IH': "dpRow (a ! i) (drop (Suc j) b)
               (lev a b i (Suc j) # map (lev a b i) [Suc (Suc j)..<Suc (length b)])
               (lev a b (Suc i) (Suc j))
             = map (lev a b (Suc i)) [Suc (Suc j)..<Suc (length b)]"
    using IH by (simp only: u' list.map)
  have v: "min (min (lev a b i (Suc j) + 1) (lev a b (Suc i) j + 1))
             (lev a b i j + (if a ! i = b ! j then 0 else 1)) = lev a b (Suc i) (Suc j)"
    by simp
  have step: "dpRow (a ! i) (b ! j # drop (Suc j) b)
          (lev a b i j # lev a b i (Suc j) # map (lev a b i) [Suc (Suc j)..<Suc (length b)])
          (lev a b (Suc i) j)
      = lev a b (Suc i) (Suc j)
        # dpRow (a ! i) (drop (Suc j) b)
            (lev a b i (Suc j) # map (lev a b i) [Suc (Suc j)..<Suc (length b)])
            (lev a b (Suc i) (Suc j))"
    by (simp only: dpRow.simps Let_def v)
  show ?case by (simp only: d u u' list.map step IH')
qed

lemma dpRows_lev:
  "i \<le> length a \<Longrightarrow>
   dpRows (drop i a) b i (map (lev a b i) [0..<Suc (length b)])
     = map (lev a b (length a)) [0..<Suc (length b)]"
proof (induction "length a - i" arbitrary: i)
  case 0
  then have "i = length a" by simp
  then show ?case by simp
next
  case (Suc n)
  then have i: "i < length a" by simp
  have d: "drop i a = a ! i # drop (Suc i) a"
    using i by (simp add: Cons_nth_drop_Suc)
  have u: "[0..<Suc (length b)] = 0 # [Suc 0..<Suc (length b)]"
    by (simp add: upt_conv_Cons del: upt_Suc)
  have row: "dpRow (a ! i) b (map (lev a b i) [0..<Suc (length b)]) (Suc i)
      = map (lev a b (Suc i)) [Suc 0..<Suc (length b)]"
    using dpRow_lev [of 0 b a i] by simp
  have IH: "dpRows (drop (Suc i) a) b (Suc i) (map (lev a b (Suc i)) [0..<Suc (length b)])
      = map (lev a b (length a)) [0..<Suc (length b)]"
    using Suc.hyps(2) i by (intro Suc.hyps(1)) simp_all
  have "dpRows (drop i a) b i (map (lev a b i) [0..<Suc (length b)])
      = dpRows (drop (Suc i) a) b (Suc i)
          (Suc i # map (lev a b (Suc i)) [Suc 0..<Suc (length b)])"
    by (simp only: d dpRows.simps row)
  also have "Suc i # map (lev a b (Suc i)) [Suc 0..<Suc (length b)]
      = map (lev a b (Suc i)) [0..<Suc (length b)]"
    by (simp only: u list.map lev.simps)
  finally show ?case by (simp only: IH)
qed

lemma distance_levenshteinDistance: "distance a b = levenshteinDistance a b"
proof -
  have "map (lev a b 0) [0..<Suc (length b)] = [0..<Suc (length b)]"
    by (rule map_idI) simp
  then have "dpRows a b 0 [0..<Suc (length b)] = map (lev a b (length a)) [0..<Suc (length b)]"
    using dpRows_lev [of 0 a b] by simp
  then show ?thesis
    by (simp add: distance_def levenshteinDistance_def last_map del: upt_Suc)
qed

text \<open>
  C5 (shared similarity primitive). The claim fails: the duplicate detector's
  \<open>simpleSimilarity\<close> and the merchant normalizer's edit-distance score are different
  functions. For \<open>abc\<close> and \<open>cba\<close> the first is 1 (every character of one occurs in the
  other) and the second is 1/3 (edit distance 2 over length 3), so the pair passes the
  duplicate detector's cutoff 0.8 and fails the merchant normalizer's.
\<close>

theorem similarity_functions_differ:
  "simpleSimilarity ''abc'' ''cba'' = 1 \<and> similarityScore ''abc'' ''cba'' = 1 / 3
   \<and> simpleSimilarity ''abc'' ''cba'' > 4 / 5 \<and> \<not> areStringsSimilar ''abc'' ''cba'' (4 / 5)"
  by code_simp

text \<open>
  C5, as amended. Only the merchant normalizer computes the normalized edit similarity of
  the specification. For every pair of strings its score is that similarity (1 minus the
  Levenshtein distance of the normalized strings over the length of the longer one, and 1
  when both are empty), and \<open>areStringsSimilar\<close> accepts the pair at a threshold exactly
  when the normalized strings are equal, or the length guard does not reject the pair and
  that similarity reaches the threshold. The duplicate detector's \<open>simpleSimilarity\<close> is
  another function: on \<open>abc\<close> and \<open>cba\<close> its value is not the normalized edit similarity.
\<close>

theorem merchant_similarity_refines:
  "similarityScore a b = normalizedEditSimilarity a b
   \<and> areStringsSimilar a b threshold
       = (normalize a = normalize b
          \<or> (\<not> lengthGuardRejects a b \<and> threshold \<le> normalizedEditSimilarity a b))
   \<and> simpleSimilarity ''abc'' ''cba'' \<noteq> normalizedEditSimilarity ''abc'' ''cba''"
proof -
  have score: "similarityScore x y = normalizedEditSimilarity x y" for x y
    by (simp add: similarityScore_def normalizedEditSimilarity_def Let_def
        distance_levenshteinDistance)
  have alt: "areStringsSimilar a b threshold
       = (if normalize a = normalize b then True
          else if lengthGuardRejects a b then False
          else if max (length (normalize a)) (length (normalize b)) = 0 then True
          else 1 - of_nat (distance (normalize a) (normalize b))
                     / of_nat (max (length (normalize a)) (length (normalize b)))
                 \<ge> threshold)"
    by (simp only: areStringsSimilar_def Let_def lengthGuardRejects_def)
  have "areStringsSimilar a b threshold
       = (normalize a = normalize b
          \<or> (\<not> lengthGuardRejects a b \<and> threshold \<le> normalizedEditSimilarity a b))"
  proof (cases "normalize a = normalize b")
    case True
    then show ?thesis by (simp add: areStringsSimilar_def)
  next
    case False
    then have ne: "\<not> (normalize a = [] \<and> normalize b = [])" by auto
    then have m: "max (length (normalize a)) (length (normalize b)) \<noteq> 0" by auto
    have nes: "normalizedEditSimilarity a b
        = 1 - of_nat (distance (normalize a) (normalize b))
                / of_nat (max (length (normalize a)) (length (normalize b)))"
      using ne by (simp add: normalizedEditSimilarity_def distance_levenshteinDistance)
    show ?thesis
      by (cases "lengthGuardRejects a b") (simp_all only: alt nes m False if_False if_True simp_thms)
  qed
  moreover have "simpleSimilarity ''abc'' ''cba'' \<noteq> similarityScore ''abc'' ''cba''"
    by code_simp
  ultimately show ?thesis by (simp only: score) simp
qed

theorem merchant_similarity_refines_witness:
  "normalizedEditSimilarity ''AMZN Mktp USA'' ''AMZN Mktp US'' = 12 / 13
   \<and> normalizedEditSimilarity ''AMZN MKTPLACE'' ''AMZN Mktp US'' = 9 / 13
   \<and> \<not> lengthGuardRejects ''AMZN Mktp USA'' ''AMZN Mktp US''
   \<and> areStringsSimilar ''AMZN Mktp USA'' ''AMZN Mktp US'' (4 / 5)"
proof -
  have "similarityScore ''AMZN Mktp USA'' ''AMZN Mktp US'' = 12 / 13"
    and "similarityScore ''AMZN MKTPLACE'' ''AMZN Mktp US'' = 9 / 13"
    and "normalize ''AMZN Mktp USA'' \<noteq> normalize ''AMZN Mktp US''"
    and "areStringsSimilar ''AMZN Mktp USA'' ''AMZN Mktp US'' (4 / 5)"
    by code_simp+
  then show ?thesis
    using merchant_similarity_refines [of "''AMZN Mktp USA''" "''AMZN Mktp US''" "4 / 5"]
      merchant_similarity_refines [of "''AMZN MKTPLACE''" "''AMZN Mktp US''" "4 / 5"]
    by simp
qed

section \<open>Properties of the duplicate rule\<close>

lemma strIncludes_self: "strIncludes s s"
  by (cases s) auto

lemma simpleSimilarity_self: "simpleSimilarity s s = (if s = [] then 1 else 4 / 5)"
  by (simp add: simpleSimilarity_def Let_def strIncludes_self toLowerCase_def)

text \<open>
  For a pair with equal names and equal descriptions the confidence is 0.9 when the name
  is empty and 0.95 otherwise: the description similarity of equal strings is at least
  0.8, so one of the first three branches is taken and the branch for 1.0 is never
  reached.
\<close>

lemma pairConfidence_exact:
  "paidTo t1 = paidTo t2 \<Longrightarrow> description t1 = description t2 \<Longrightarrow>
   pairConfidence t1 t2 = (if paidTo t1 = [] then 9 / 10 else 19 / 20)"
  by (simp add: pairConfidence_def Let_def simpleSimilarity_self)

text \<open>
  C6 (confidence of exact duplicates). Two transactions with the same date and amount,
  the same name \<open>AMZN MKTP\<close> and the same description \<open>order\<close> get one duplicate
  recommendation, with confidence 0.95 and not 1.0.
\<close>

theorem exact_duplicate_confidence:
  "map (\<lambda>c. (rtype c, transactionIds c, confidence c))
     (findDuplicateRecommendations [exampleTransaction, exampleTransaction\<lparr>tid := ''t2''\<rparr>])
   = [(Duplicate, [''t1'', ''t2''], Some (19 / 20))]"
  unfolding exampleTransaction_def noFlags_def by code_simp

section \<open>Properties of the merchant rule\<close>

text \<open>
  C9 (totality of the rule modules). A transaction whose name is \<open>constructor\<close> makes the
  merchant rule throw: \<open>canonicalMap['constructor']\<close> is the inherited function
  \<open>Object\<close>, the name is therefore skipped as already mapped, and the last loop calls
  \<open>toLowerCase\<close> on that function. The reconciliation fails with it.
\<close>

theorem merchant_rule_throws:
  "normalizeMerchantRecommendations [exampleTransaction\<lparr>paidTo := ''constructor''\<rparr>]
     = Inl TypeError
   \<and> generateRecommendations uuid [exampleTransaction\<lparr>paidTo := ''constructor''\<rparr>] []
     = Inl TypeError"
proof -
  have "normalizeMerchantRecommendations [exampleTransaction\<lparr>paidTo := ''constructor''\<rparr>]
          = Inl TypeError"
    unfolding exampleTransaction_def noFlags_def by code_simp
  then show ?thesis
    by (simp add: generateRecommendations_def candidateRecsFromRules_def Let_def
        exampleTransaction_def noFlags_def)
qed








lemma forEachPush_members:
  "forEachPush f xs = Inr ys \<Longrightarrow> y \<in> set ys \<Longrightarrow> \<exists>x \<in> set xs. \<exists>zs. f x = Inr zs \<and> y \<in> set zs"
  by (induction xs arbitrary: ys) (auto split: sum.splits)

lemma merchantEmit_shape:
  assumes "merchantEmit cm t = Inr cs" "c \<in> set cs"
  shows "\<not> isDeleted (flags t)" and "status c = Pending" and "transactionIds c = [tid t]"
    and "rtype c = MerchantNormalization"
    and "affectedField c = Some PaidTo" and "originalValue c = Str (trim (paidTo t))"
    and "suggestedValue c \<noteq> trim (paidTo t)"
    and "objGet cm (trim (paidTo t)) = Own (suggestedValue c)"
    and "confidence c = Some (min (19 / 20) (max (1 / 2)
         (3 / 5 + similarityScore (trim (paidTo t)) (suggestedValue c) * (7 / 20))))"
proof -
  have "\<not> isDeleted (flags t) \<and> status c = Pending \<and> transactionIds c = [tid t] \<and> rtype c = MerchantNormalization
    \<and> affectedField c = Some PaidTo \<and> originalValue c = Str (trim (paidTo t))
    \<and> suggestedValue c \<noteq> trim (paidTo t)
    \<and> objGet cm (trim (paidTo t)) = Own (suggestedValue c)
    \<and> confidence c = Some (min (19 / 20) (max (1 / 2)
         (3 / 5 + similarityScore (trim (paidTo t)) (suggestedValue c) * (7 / 20))))"
  proof (cases "objGet cm (trim (paidTo t))")
    case (Own v)
    with assms show ?thesis
      by (cases "isDeleted (flags t)"; cases "trim (paidTo t) = []"; cases "v \<noteq> [] \<and> v \<noteq> trim (paidTo t)")
         (auto simp: merchantEmit_def Let_def)
  next
    case Inherited
    with assms show ?thesis
      by (cases "isDeleted (flags t)"; cases "trim (paidTo t) = []")
         (auto simp: merchantEmit_def Let_def)
  next
    case Absent
    with assms show ?thesis
      by (cases "isDeleted (flags t)"; cases "trim (paidTo t) = []")
         (auto simp: merchantEmit_def Let_def)
  qed
  then show "\<not> isDeleted (flags t)" and "status c = Pending" and "transactionIds c = [tid t]"
    and "rtype c = MerchantNormalization"
    and "affectedField c = Some PaidTo" and "originalValue c = Str (trim (paidTo t))"
    and "suggestedValue c \<noteq> trim (paidTo t)"
    and "objGet cm (trim (paidTo t)) = Own (suggestedValue c)"
    and "confidence c = Some (min (19 / 20) (max (1 / 2)
         (3 / 5 + similarityScore (trim (paidTo t)) (suggestedValue c) * (7 / 20))))"
    by blast+
qed
















section \<open>The candidates of the rules\<close>

lemma addToGroup_members:
  "(k', g) \<in> set (addToGroup k t m) \<Longrightarrow> set g \<subseteq> insert t (\<Union>(set ` snd ` set m))"
  by (induction k t m rule: addToGroup.induct) (auto split: if_splits)

lemma potentialDuplicates_members_aux:
  "(k, g) \<in> set (foldl (\<lambda>m t. if isDeleted (flags t) then m else addToGroup (bucketKey t) t m) m0 ts)
   \<Longrightarrow> set g \<subseteq> set ts \<union> \<Union>(set ` snd ` set m0)"
proof (induction ts arbitrary: m0)
  case Nil
  then show ?case by force
next
  case (Cons t ts)
  show ?case
  proof (cases "isDeleted (flags t)")
    case True
    with Cons show ?thesis by auto
  next
    case False
    with Cons.prems have "(k, g) \<in> set (foldl (\<lambda>m t. if isDeleted (flags t) then m else addToGroup (bucketKey t) t m) (addToGroup (bucketKey t) t m0) ts)"
      by simp
    from Cons.IH [OF this] have "set g \<subseteq> set ts \<union> \<Union>(set ` snd ` set (addToGroup (bucketKey t) t m0))" .
    moreover have "\<Union>(set ` snd ` set (addToGroup (bucketKey t) t m0)) \<subseteq> insert t (\<Union>(set ` snd ` set m0))"
      using addToGroup_members by fastforce
    ultimately show ?thesis by auto
  qed
qed

lemma potentialDuplicates_members:
  "(k, g) \<in> set (potentialDuplicates ts) \<Longrightarrow> set g \<subseteq> set ts"
  using potentialDuplicates_members_aux [of k g "[]" ts] by (simp add: potentialDuplicates_def)

lemma allPairs_members: "(a, b) \<in> set (allPairs xs) \<Longrightarrow> a \<in> set xs \<and> b \<in> set xs"
  by (induction xs) auto

lemma duplicateStep_candidates:
  assumes "\<forall>c \<in> set (fst st). candidateOf active c" "fst p \<in> set active" "snd p \<in> set active"
  shows "\<forall>c \<in> set (fst (duplicateStep st p)). candidateOf active c"
  using assms by (auto simp: duplicateStep_def Let_def candidateOf_def targetCount_def)

lemma foldl_duplicateStep_candidates:
  "\<forall>c \<in> set (fst st). candidateOf active c \<Longrightarrow>
   \<forall>p \<in> set ps. fst p \<in> set active \<and> snd p \<in> set active \<Longrightarrow>
   \<forall>c \<in> set (fst (foldl duplicateStep st ps)). candidateOf active c"
proof (induction ps arbitrary: st)
  case Nil
  then show ?case by simp
next
  case (Cons p ps)
  have "\<forall>c \<in> set (fst (duplicateStep st p)). candidateOf active c"
    using Cons.prems by (intro duplicateStep_candidates) auto
  then show ?case using Cons by simp
qed

lemma findDuplicateRecommendations_candidates:
  "c \<in> set (findDuplicateRecommendations active) \<Longrightarrow> candidateOf active c"
proof -
  have "\<forall>p \<in> set (concat (map (\<lambda>(k, group). if length group > 1 then allPairs group else [])
          (potentialDuplicates active))). fst p \<in> set active \<and> snd p \<in> set active"
    using potentialDuplicates_members allPairs_members
    by (fastforce split: if_splits)
  from foldl_duplicateStep_candidates [OF _ this, of "([], {})"]
  show "c \<in> set (findDuplicateRecommendations active) \<Longrightarrow> candidateOf active c"
    by (simp add: findDuplicateRecommendations_def)
qed

lemma normalizeMerchantRecommendations_candidates:
  assumes "normalizeMerchantRecommendations active = Inr cs" "c \<in> set cs"
  shows "candidateOf active c"
proof -
  from assms have "\<exists>t \<in> set active. \<exists>zs. merchantEmit (canonicalMapOf active) t = Inr zs \<and> c \<in> set zs"
    unfolding normalizeMerchantRecommendations_def by (rule forEachPush_members)
  then obtain t zs where t: "t \<in> set active"
    and emit: "merchantEmit (canonicalMapOf active) t = Inr zs" "c \<in> set zs"
    by (elim bexE exE conjE)
  from t merchantEmit_shape(2,3,4) [OF emit] show ?thesis
    by (simp add: candidateOf_def targetCount_def)
qed

lemma suggestExpenseType_shape:
  "c \<in> set (suggestExpenseType tables t) \<Longrightarrow>
   status c = Pending \<and> transactionIds c = [tid t] \<and> rtype c = MissingField"
  by (simp add: suggestExpenseType_def Let_def split: if_splits)

lemma suggestExpenseSubtype_shape:
  "c \<in> set (suggestExpenseSubtype tables t) \<Longrightarrow>
   status c = Pending \<and> transactionIds c = [tid t] \<and> rtype c = MissingField"
  by (simp add: suggestExpenseSubtype_def Let_def split: if_splits)

lemma suggestTransactionType_shape:
  "c \<in> set (suggestTransactionType tables t) \<Longrightarrow>
   status c = Pending \<and> transactionIds c = [tid t] \<and> rtype c = MissingField"
  by (simp add: suggestTransactionType_def Let_def split: if_splits)

lemma suggestMissingFieldRecommendations_candidates:
  assumes "c \<in> set (suggestMissingFieldRecommendations active allTransactions)"
  shows "candidateOf active c"
proof -
  define tables where "tables = foldl frequencyStep ([], [], []) allTransactions"
  from assms have "\<exists>t \<in> set active. c \<in> set (suggestExpenseType tables t) \<or>
       c \<in> set (suggestExpenseSubtype tables t) \<or> c \<in> set (suggestTransactionType tables t)"
    unfolding suggestMissingFieldRecommendations_def Let_def tables_def
    by (auto split: if_splits)
  then obtain t where t: "t \<in> set active"
    and c: "c \<in> set (suggestExpenseType tables t) \<or> c \<in> set (suggestExpenseSubtype tables t)
         \<or> c \<in> set (suggestTransactionType tables t)"
    by blast
  from c have "status c = Pending \<and> transactionIds c = [tid t] \<and> rtype c = MissingField"
    using suggestExpenseType_shape suggestExpenseSubtype_shape suggestTransactionType_shape
    by blast
  with t show ?thesis by (simp add: candidateOf_def targetCount_def)
qed

lemma classificationRec_shape:
  "status (classificationRec t f a b x y) = Pending"
  "transactionIds (classificationRec t f a b x y) = [tid t]"
  "rtype (classificationRec t f a b x y) = Classification"
  by (simp_all add: classificationRec_def)

lemma classifyByKeyword_shape:
  "c \<in> set (classifyByKeyword t) \<Longrightarrow>
   status c = Pending \<and> transactionIds c = [tid t] \<and> rtype c = Classification"
  by (auto simp: classifyByKeyword_def classificationRec_shape
      split: if_splits option.splits prod.splits)


lemma classifyByHistory_shape:
  "classifyByHistory m t = Inr cs \<Longrightarrow> c \<in> set cs \<Longrightarrow>
   status c = Pending \<and> transactionIds c = [tid t] \<and> rtype c = Classification"
  by (auto simp: classifyByHistory_def Let_def classificationRec_shape
      split: if_splits Lookup.splits list.splits)

lemma classifyTransaction_shape:
  assumes "classifyTransaction m t = Inr cs" "c \<in> set cs"
  shows "status c = Pending \<and> transactionIds c = [tid t] \<and> rtype c = Classification"
proof -
  from assms obtain hs where hs: "classifyByHistory m t = Inr hs"
    and c: "c \<in> set (classifyByKeyword t) \<or> c \<in> set hs"
    by (auto simp: classifyTransaction_def split: if_splits sum.splits)
  from c show ?thesis
    using classifyByKeyword_shape classifyByHistory_shape [OF hs] by blast
qed

lemma suggestClassificationRecommendations_candidates:
  assumes "suggestClassificationRecommendations active allTransactions = Inr cs" "c \<in> set cs"
  shows "candidateOf active c"
proof -
  from assms(1) obtain m where "forEachPush (classifyTransaction m) active = Inr cs"
    by (auto simp: suggestClassificationRecommendations_def split: sum.splits)
  from forEachPush_members [OF this assms(2)] obtain t zs where t: "t \<in> set active"
    and zs: "classifyTransaction m t = Inr zs" "c \<in> set zs"
    by (elim bexE exE conjE)
  from classifyTransaction_shape [OF zs] t show ?thesis
    by (simp add: candidateOf_def targetCount_def)
qed

lemma candidateOf_rid [simp]: "candidateOf active (c\<lparr>rid := x\<rparr>) = candidateOf active c"
  by (simp add: candidateOf_def)

text \<open>
  A run that does not throw draws its ids for a list of drafts that is the same for every
  supply of ids.
\<close>

lemma candidateRecsFromRules_Inr:
  assumes "candidateRecsFromRules uuid R = Inr cands"
  shows "\<exists>drafts. (\<forall>d \<in> set drafts. candidateOf (activeOf R) d)
           \<and> (\<forall>u. candidateRecsFromRules u R = Inr (drawIds u drafts))"
proof -
  from assms obtain ms cls where ms: "normalizeMerchantRecommendations (activeOf R) = Inr ms"
    and cls: "suggestClassificationRecommendations (activeOf R) R = Inr cls"
    by (auto simp: candidateRecsFromRules_def activeOf_def Let_def split: sum.splits)
  let ?drafts = "findDuplicateRecommendations (activeOf R) @ ms
       @ suggestMissingFieldRecommendations (activeOf R) R @ cls"
  have "\<forall>d \<in> set ?drafts. candidateOf (activeOf R) d"
    using findDuplicateRecommendations_candidates normalizeMerchantRecommendations_candidates [OF ms]
      suggestMissingFieldRecommendations_candidates
      suggestClassificationRecommendations_candidates [OF cls]
    by auto
  moreover have "\<forall>u. candidateRecsFromRules u R = Inr (drawIds u ?drafts)"
    using ms cls by (simp add: candidateRecsFromRules_def activeOf_def Let_def)
  ultimately show ?thesis by blast
qed

lemma drawIds_candidates:
  "\<forall>d \<in> set drafts. candidateOf active d \<Longrightarrow> c \<in> set (drawIds u drafts) \<Longrightarrow> candidateOf active c"
  by (auto simp: drawIds_def in_set_enumerate_eq)

lemma forEachPush_Inr:
  "\<forall>x \<in> set xs. \<exists>ys. f x = Inr ys \<Longrightarrow> \<exists>zs. forEachPush f xs = Inr zs"
  by (induction xs) (auto split: sum.splits)

lemma merchantEmit_Inr:
  "trim (paidTo t) \<notin> set objectPrototypeKeys \<Longrightarrow> \<exists>ys. merchantEmit cm t = Inr ys"
  by (cases "map_of cm (trim (paidTo t))")
     (simp_all add: merchantEmit_def Let_def objGet_def)


text \<open>No rule throws when no key names a property of \<open>Object.prototype\<close>.\<close>

lemma categoryStep_Inr:
  "isDeleted (flags t) \<or> toLowerCase (paidTo t) \<notin> set objectPrototypeKeys \<Longrightarrow>
   \<exists>m'. categoryStep m t = Inr m'"
  by (cases "map_of m (toLowerCase (paidTo t))")
     (auto simp: categoryStep_def Let_def objGet_def)

lemma forEachState_Inr:
  "\<forall>x \<in> set xs. \<forall>s. \<exists>s'. f s x = Inr s' \<Longrightarrow> \<exists>s'. forEachState f s xs = Inr s'"
proof (induction xs arbitrary: s)
  case Nil
  then show ?case by simp
next
  case (Cons x xs)
  from Cons.prems have "\<exists>s'. f s x = Inr s'" by simp
  then obtain s' where s': "f s x = Inr s'" by blast
  from Cons.prems have "\<forall>y \<in> set xs. \<forall>s. \<exists>s'. f s y = Inr s'" by simp
  then have "\<exists>s''. forEachState f s' xs = Inr s''" by (rule Cons.IH)
  with s' show ?case by simp
qed

lemma classifyTransaction_Inr:
  "isDeleted (flags t) \<or> toLowerCase (paidTo t) \<notin> set objectPrototypeKeys \<Longrightarrow>
   \<exists>cs. classifyTransaction m t = Inr cs"
  by (cases "map_of m (toLowerCase (paidTo t))")
     (auto simp: classifyTransaction_def classifyByHistory_def Let_def objGet_def
       split: list.splits)

lemma plainKeys_total:
  assumes "plainKeys R"
  shows "\<exists>cands. candidateRecsFromRules uuid R = Inr cands"
proof -
  have "\<forall>t \<in> set (activeOf R). \<exists>ys. merchantEmit (canonicalMapOf (activeOf R)) t = Inr ys"
    using assms by (auto simp: plainKeys_def activeOf_def intro: merchantEmit_Inr)
  then obtain ms where ms: "normalizeMerchantRecommendations (activeOf R) = Inr ms"
    unfolding normalizeMerchantRecommendations_def using forEachPush_Inr by blast
  have key: "\<forall>t \<in> set R. isDeleted (flags t) \<or> toLowerCase (paidTo t) \<notin> set objectPrototypeKeys"
    using assms by (auto simp: plainKeys_def)
  then have "\<forall>t \<in> set R. \<forall>m. \<exists>m'. categoryStep m t = Inr m'"
    using categoryStep_Inr by blast
  then have "\<exists>m. forEachState categoryStep [] R = Inr m" by (rule forEachState_Inr)
  then obtain m where m: "paidToCategoryMapOf R = Inr m"
    by (auto simp: paidToCategoryMapOf_def)
  have "\<forall>t \<in> set (activeOf R). \<exists>cs. classifyTransaction m t = Inr cs"
    using key classifyTransaction_Inr by (auto simp: activeOf_def)
  then obtain cls where "forEachPush (classifyTransaction m) (activeOf R) = Inr cls"
    using forEachPush_Inr by blast
  with m have "suggestClassificationRecommendations (activeOf R) R = Inr cls"
    by (simp add: suggestClassificationRecommendations_def)
  with ms show ?thesis
    by (simp add: candidateRecsFromRules_def activeOf_def Let_def)
qed

section \<open>The reconciliation in closed form\<close>

lemma find_snoc_not_None: "P x \<Longrightarrow> find P (xs @ [x]) \<noteq> None"
  by (auto simp: find_None_iff)

lemma carryStep_terminal:
  "isTerminal rec \<Longrightarrow>
   carryStep E st rec = (fst st @ [carried E rec], insert (getRecommendationIdentity rec) (snd st))"
  unfolding carryStep_def carried_def isTerminal_def Let_def
  by (auto simp: find_None_iff)

lemma carryStep_other: "\<not> isTerminal rec \<Longrightarrow> carryStep E st rec = st"
  by (simp add: carryStep_def isTerminal_def)

lemma foldl_carryStep:
  "foldl (carryStep E) (out, processed) prev
     = (out @ map (carried E) (filter isTerminal prev),
        processed \<union> getRecommendationIdentity ` set (filter isTerminal prev))"
proof (induction prev arbitrary: out processed)
  case Nil
  then show ?case by simp
next
  case (Cons rec prev)
  show ?case
  proof (cases "isTerminal rec")
    case True
    then show ?thesis by (simp add: carryStep_terminal Cons.IH)
  next
    case False
    then show ?thesis by (simp add: carryStep_other Cons.IH)
  qed
qed

lemma mergeStep_eq:
  "mergeStep pm st c =
     (if getRecommendationIdentity c \<in> snd st then st
      else (fst st @ [assignId pm c], insert (getRecommendationIdentity c) (snd st)))"
  by (simp add: mergeStep_def assignId_def Let_def)

lemma foldl_mergeStep:
  "foldl (mergeStep pm) (out, processed) cands
     = (out @ map (assignId pm) (keptBy getRecommendationIdentity processed cands),
        processed \<union> getRecommendationIdentity ` set cands)"
proof (induction cands arbitrary: out processed)
  case Nil
  then show ?case by simp
next
  case (Cons c cands)
  show ?case
  proof (cases "getRecommendationIdentity c \<in> processed")
    case True
    then have "mergeStep pm (out, processed) c = (out, processed)"
      by (simp add: mergeStep_eq)
    then show ?thesis using True by (simp add: Cons.IH insert_absorb)
  next
    case False
    then have "mergeStep pm (out, processed) c
      = (out @ [assignId pm c], insert (getRecommendationIdentity c) processed)"
      by (simp add: mergeStep_eq)
    then show ?thesis using False by (simp add: Cons.IH)
  qed
qed

lemma keptBy_subset: "x \<in> set (keptBy f processed xs) \<Longrightarrow> x \<in> set xs \<and> f x \<notin> processed"
  by (induction xs arbitrary: processed) (auto split: if_splits)




lemma mapSet_subset: "set (mapSet xs r) \<subseteq> insert r (set xs)"
  by (induction xs r rule: mapSet.induct) auto

lemma mapSet_fresh: "rid r \<notin> rid ` set xs \<Longrightarrow> mapSet xs r = xs @ [r]"
  by (induction xs r rule: mapSet.induct) auto

lemma finalStep_subset:
  "set (finalStep E SD acc r) \<subseteq> set acc \<union> (if skipped E SD r then {} else {currentRecOf E r})"
  using mapSet_subset [of acc "currentRecOf E r"]
  by (auto simp: finalStep_def Let_def split: option.splits)

lemma foldl_finalStep_members:
  "x \<in> set (foldl (finalStep E SD) acc S) \<Longrightarrow>
   x \<in> set acc \<or> (\<exists>r \<in> set S. \<not> skipped E SD r \<and> x = currentRecOf E r)"
proof (induction S arbitrary: acc)
  case Nil
  then show ?case by simp
next
  case (Cons r S)
  from Cons.prems have "x \<in> set (foldl (finalStep E SD) (finalStep E SD acc r) S)" by simp
  from Cons.IH [OF this] have "x \<in> set (finalStep E SD acc r)
     \<or> (\<exists>r \<in> set S. \<not> skipped E SD r \<and> x = currentRecOf E r)" .
  then show ?case
    using finalStep_subset [of E SD acc r] by (auto split: if_splits)
qed

lemma rid_currentRecOf [simp]: "rid (currentRecOf E r) = rid r"
  by (simp add: currentRecOf_def)

lemma finalStep_fresh:
  assumes "\<not> skipped E SD r" "rid r \<notin> rid ` set acc"
  shows "finalStep E SD acc r = acc @ [currentRecOf E r]"
proof -
  have "\<And>x. x \<in> set acc \<Longrightarrow> rid x \<noteq> rid r"
    using assms(2) by (metis imageI)
  then have "find (\<lambda>x. rid x = rid (currentRecOf E r)) acc = None"
    by (simp add: find_None_iff)
  moreover have "mapSet acc (currentRecOf E r) = acc @ [currentRecOf E r]"
    using assms(2) by (intro mapSet_fresh) simp
  ultimately show ?thesis using assms(1) by (simp add: finalStep_def Let_def)
qed

lemma finalStep_skipped: "skipped E SD r \<Longrightarrow> finalStep E SD acc r = acc"
  by (simp add: finalStep_def)




lemma reconcile_eq:
  "reconcile R prev cands =
     foldl (finalStep (existingIds R) (softDeletedIds R)) []
       (map (carried (existingIds R)) (filter isTerminal prev) @ mergedOf R prev cands)"
  by (simp add: reconcile_def Let_def foldl_carryStep foldl_mergeStep existingIds_def
      softDeletedIds_def pendingMapOf_def mergedOf_def)

lemma status_carried [simp]: "status (carried E r) = status r"
  and rid_carried [simp]: "rid (carried E r) = rid r"
  by (simp_all add: carried_def Let_def)

lemma status_currentRecOf [simp]: "status (currentRecOf E r) = status r"
  by (simp add: currentRecOf_def)

lemma identity_rid_status [simp]:
  "getRecommendationIdentity (c\<lparr>rid := x\<rparr>) = getRecommendationIdentity c"
  "getRecommendationIdentity (c\<lparr>status := s\<rparr>) = getRecommendationIdentity c"
  by (simp_all add: getRecommendationIdentity_def)

lemma identity_assignId [simp]:
  "getRecommendationIdentity (assignId pm c) = getRecommendationIdentity c"
  by (simp add: assignId_def split: option.splits)

lemma transactionIds_assignId [simp]: "transactionIds (assignId pm c) = transactionIds c"
  and rtype_assignId [simp]: "rtype (assignId pm c) = rtype c"
  by (simp_all add: assignId_def split: option.splits)

lemma status_assignId: "status c = Pending \<Longrightarrow> status (assignId pm c) = Pending"
  by (simp add: assignId_def split: option.splits)

lemma activeOf_existing: "tid ` set (activeOf R) \<subseteq> existingIds R"
  by (auto simp: activeOf_def existingIds_def)

lemma currentRecOf_candidate:
  "set (transactionIds c) \<subseteq> E \<Longrightarrow> currentRecOf E c = c"
proof -
  assume "set (transactionIds c) \<subseteq> E"
  then have "filter (\<lambda>txId. txId \<in> E) (transactionIds c) = transactionIds c"
    by (auto simp: filter_id_conv)
  then show ?thesis by (simp add: currentRecOf_def)
qed


text \<open>Every recommendation of the output, traced back to where it comes from.\<close>

lemma reconcile_members:
  assumes "x \<in> set (reconcile R prev cands)" "\<forall>c \<in> set cands. candidateOf (activeOf R) c"
  shows "(\<exists>t \<in> set prev. isTerminal t \<and> x = currentRecOf (existingIds R) (carried (existingIds R) t))
       \<or> (\<exists>c \<in> set cands. getRecommendationIdentity c \<notin> getRecommendationIdentity ` set (filter isTerminal prev)
             \<and> x = assignId (pendingMapOf prev) c \<and> status x = Pending
             \<and> \<not> skipped (existingIds R) (softDeletedIds R) x)"
proof -
  from assms(1) have "\<exists>r \<in> set (map (carried (existingIds R)) (filter isTerminal prev) @ mergedOf R prev cands).
      \<not> skipped (existingIds R) (softDeletedIds R) r \<and> x = currentRecOf (existingIds R) r"
    unfolding reconcile_eq using foldl_finalStep_members by fastforce
  then obtain r where r: "r \<in> set (map (carried (existingIds R)) (filter isTerminal prev)) \<or> r \<in> set (mergedOf R prev cands)"
    and ns: "\<not> skipped (existingIds R) (softDeletedIds R) r" and x: "x = currentRecOf (existingIds R) r"
    by auto
  from r show ?thesis
  proof
    assume "r \<in> set (map (carried (existingIds R)) (filter isTerminal prev))"
    with x show ?thesis by auto
  next
    assume "r \<in> set (mergedOf R prev cands)"
    then obtain c where c: "c \<in> set (keptBy getRecommendationIdentity (getRecommendationIdentity ` set (filter isTerminal prev)) cands)"
      and rc: "r = assignId (pendingMapOf prev) c"
      by (auto simp: mergedOf_def)
    from keptBy_subset [OF c] have cin: "c \<in> set cands"
      and fresh: "getRecommendationIdentity c \<notin> getRecommendationIdentity ` set (filter isTerminal prev)"
      by blast+
    from assms(2) cin have cand: "candidateOf (activeOf R) c" by blast
    then have "set (transactionIds r) \<subseteq> existingIds R"
      using activeOf_existing [of R] rc by (auto simp: candidateOf_def)
    then have "currentRecOf (existingIds R) r = r" by (rule currentRecOf_candidate)
    with x have xr: "x = r" by simp
    have "status r = Pending" using cand rc by (simp add: candidateOf_def status_assignId)
    with xr rc ns cin fresh show ?thesis by blast
  qed
qed

lemma generateRecommendations_Inr:
  "generateRecommendations uuid R prev = Inr out \<longleftrightarrow>
   (\<exists>cands. candidateRecsFromRules uuid R = Inr cands \<and> out = reconcile R prev cands)"
  by (auto simp: generateRecommendations_def split: sum.splits)

lemma carried_terminal_not_pending:
  "isTerminal t \<Longrightarrow> status (currentRecOf E (carried E' t)) \<noteq> Pending"
  by (auto simp: isTerminal_def)

lemma pending_members:
  assumes "x \<in> set (reconcile R prev cands)" "\<forall>c \<in> set cands. candidateOf (activeOf R) c"
    and "status x = Pending"
  shows "\<exists>c \<in> set cands. getRecommendationIdentity c \<notin> getRecommendationIdentity ` set (filter isTerminal prev)
             \<and> x = assignId (pendingMapOf prev) c
             \<and> \<not> skipped (existingIds R) (softDeletedIds R) x"
  using reconcile_members [OF assms(1,2)] assms(3) carried_terminal_not_pending by blast

lemma distinct_rid_eq:
  "distinct (map rid prev) \<Longrightarrow> a \<in> set prev \<Longrightarrow> b \<in> set prev \<Longrightarrow> rid a = rid b \<Longrightarrow> a = b"
  by (meson distinct_map inj_onD)












lemma rtype_carried [simp]: "rtype (carried E t) = rtype t"
  by (simp add: carried_def Let_def)



lemma isTerminal_carried [simp]: "isTerminal (carried E t) = isTerminal t"
  by (simp add: isTerminal_def)

lemma terminal_not_skipped: "isTerminal r \<Longrightarrow> \<not> skipped E SD r"
  by (auto simp: skipped_def isTerminal_def Let_def)





lemma rid_draftRec [simp]: "rid (draftRec uuid kd) = uuid (fst kd)"
  and identity_draftRec' [simp]:
    "getRecommendationIdentity (draftRec uuid kd) = getRecommendationIdentity (snd kd)"
  and status_draftRec [simp]: "status (draftRec uuid kd) = status (snd kd)"
  and rtype_draftRec [simp]: "rtype (draftRec uuid kd) = rtype (snd kd)"
  and transactionIds_draftRec [simp]: "transactionIds (draftRec uuid kd) = transactionIds (snd kd)"
  by (simp_all add: draftRec_def)





section \<open>Properties of the reconciliation\<close>

text \<open>
  C2 (identity stability). When no key of an active transaction names a property of
  \<open>Object.prototype\<close>, the reconciliation returns, and for every applied or ignored
  recommendation of the previous list no pending recommendation of the output has the
  identity of that recommendation: a candidate with that identity is discarded.
\<close>

theorem terminal_identity_not_resurrected:
  assumes "plainKeys R" "t \<in> set prev" "status t = Applied \<or> status t = Ignored"
  shows "\<exists>out. generateRecommendations uuid R prev = Inr out
           \<and> (\<forall>x \<in> set out. status x = Pending \<longrightarrow>
                 getRecommendationIdentity x \<noteq> getRecommendationIdentity t)"
proof -
  from plainKeys_total [OF assms(1)] obtain cands
    where cands: "candidateRecsFromRules uuid R = Inr cands" by blast
  from candidateRecsFromRules_Inr [OF cands] obtain drafts
    where drafts: "\<forall>d \<in> set drafts. candidateOf (activeOf R) d"
      and draw: "\<forall>u. candidateRecsFromRules u R = Inr (drawIds u drafts)" by blast
  from cands draw have "cands = drawIds uuid drafts" by simp
  with drafts have cand: "\<forall>c \<in> set cands. candidateOf (activeOf R) c"
    using drawIds_candidates by blast
  have out: "generateRecommendations uuid R prev = Inr (reconcile R prev cands)"
    using cands by (simp add: generateRecommendations_Inr)
  have tin: "getRecommendationIdentity t \<in> getRecommendationIdentity ` set (filter isTerminal prev)"
    using assms(2,3) by (auto simp: isTerminal_def)
  have "\<forall>x \<in> set (reconcile R prev cands). status x = Pending \<longrightarrow>
          getRecommendationIdentity x \<noteq> getRecommendationIdentity t"
  proof (intro ballI impI)
    fix x assume "x \<in> set (reconcile R prev cands)" "status x = Pending"
    from pending_members [OF this(1) cand this(2)] obtain c
      where "getRecommendationIdentity c \<notin> getRecommendationIdentity ` set (filter isTerminal prev)"
        and "x = assignId (pendingMapOf prev) c" by blast
    with tin show "getRecommendationIdentity x \<noteq> getRecommendationIdentity t"
      by auto
  qed
  with out show ?thesis by blast
qed

text \<open>
  The run \<open>u\<close> on a transaction without expense type yields a MissingField
  recommendation first. Once the user has ignored it, the rule proposes it again, the
  run \<open>v\<close> discards the proposal (the id \<open>v\<close> is lost with it) and keeps the ignored
  recommendation.
\<close>

theorem terminal_identity_not_resurrected_witness:
  "map_sum id hd (generateRecommendations (exampleUuid (CHR ''u'')) [uberRecord] [])
     = Inr uberRecommendation
   \<and> map_sum id (map summary)
         (generateRecommendations (exampleUuid (CHR ''v'')) [uberRecord] [uberIgnored])
       = Inr [(''u'', MissingField, Some ExpenseType, Ignored),
              (''vv'', Classification, Some ExpenseType, Pending),
              (''vvv'', Classification, Some ExpenseSubtype, Pending)]
   \<and> (\<exists>out. generateRecommendations (exampleUuid (CHR ''v'')) [uberRecord] [uberIgnored]
               = Inr out
          \<and> (\<forall>x \<in> set out. status x = Pending \<longrightarrow>
                getRecommendationIdentity x \<noteq> getRecommendationIdentity uberIgnored))"
proof -
  have pk: "plainKeys [uberRecord]"
    unfolding uberRecord_def noFlags_def by code_simp
  have run0: "map_sum id hd (generateRecommendations (exampleUuid (CHR ''u'')) [uberRecord] [])
     = Inr uberRecommendation"
    unfolding uberRecommendation_def uberRecord_def noFlags_def by code_simp
  have run1: "map_sum id (map summary)
         (generateRecommendations (exampleUuid (CHR ''v'')) [uberRecord] [uberIgnored])
       = Inr [(''u'', MissingField, Some ExpenseType, Ignored),
              (''vv'', Classification, Some ExpenseType, Pending),
              (''vvv'', Classification, Some ExpenseSubtype, Pending)]"
    unfolding uberIgnored_def uberRecommendation_def uberRecord_def noFlags_def by code_simp
  have "uberIgnored \<in> set [uberIgnored]" by simp
  moreover have "status uberIgnored = Applied \<or> status uberIgnored = Ignored"
    by (simp add: uberIgnored_def)
  ultimately show ?thesis
    using terminal_identity_not_resurrected [OF pk, of uberIgnored "[uberIgnored]"
        "exampleUuid (CHR ''v'')"] run0 run1
    by blast
qed










section \<open>Idempotence of the reconciliation\<close>




section \<open>The status of a recommendation over time\<close>

lemma shown_subset: "set (shown st) \<subseteq> set (snd st)"
  by (auto simp: shown_def)

lemma offered_pending:
  "offered st i \<Longrightarrow> \<exists>p \<in> set (snd st). status p = Pending \<and> rid p = i"
  using shown_subset [of st] by (auto simp: offered_def)

lemma groupIds_pending:
  "i \<in> set (groupIds st canonical) \<Longrightarrow> \<exists>p \<in> set (snd st). status p = Pending \<and> rid p = i"
  using shown_subset [of st] by (auto simp: groupIds_def)

lemma snd_applyRecommendation:
  "snd (applyRecommendation i st)
     = map (\<lambda>rec. if rid rec \<in> {i} then rec\<lparr>status := Applied\<rparr> else rec) (snd st)"
proof (cases "find (\<lambda>rec. rid rec = i) (snd st)")
  case None
  then have "\<And>rec. rec \<in> set (snd st) \<Longrightarrow> rid rec \<noteq> i" by (simp add: find_None_iff)
  then have "map (\<lambda>rec. if rid rec \<in> {i} then rec\<lparr>status := Applied\<rparr> else rec) (snd st) = snd st"
    by (intro map_idI) simp
  with None show ?thesis by (simp add: applyRecommendation_def)
next
  case (Some r)
  then show ?thesis by (simp add: applyRecommendation_def)
qed

lemma snd_ignoreRecommendation:
  "snd (ignoreRecommendation i st)
     = map (\<lambda>rec. if rid rec \<in> {i} then rec\<lparr>status := Ignored\<rparr> else rec) (snd st)"
  by (simp add: ignoreRecommendation_def)

lemma snd_applyMultipleRecommendations:
  "snd (applyMultipleRecommendations ids st)
     = map (\<lambda>rec. if rid rec \<in> set ids then rec\<lparr>status := Applied\<rparr> else rec) (snd st)"
  by (simp add: applyMultipleRecommendations_def Let_def)

lemma snd_ignoreMultipleRecommendations:
  "snd (ignoreMultipleRecommendations ids st)
     = map (\<lambda>rec. if rid rec \<in> set ids then rec\<lparr>status := Ignored\<rparr> else rec) (snd st)"
  by (simp add: ignoreMultipleRecommendations_def)

text \<open>A handler that is given ids of pending recommendations.\<close>

lemma mark_statusKept:
  assumes dist: "distinct (map rid recs)"
    and pend: "\<forall>i \<in> I. \<exists>p \<in> set recs. status p = Pending \<and> rid p = i"
    and s: "s = Applied \<or> s = Ignored"
  shows "statusKept recs (map (\<lambda>rec. if rid rec \<in> I then rec\<lparr>status := s\<rparr> else rec) recs)"
proof -
  let ?f = "\<lambda>rec. if rid rec \<in> I then rec\<lparr>status := s\<rparr> else rec"
  have ids: "map rid (map ?f recs) = map rid recs" by simp
  have pending: "status r = Pending" if "r \<in> set recs" "rid r \<in> I" for r
  proof -
    from pend that(2) obtain p where p: "p \<in> set recs" "status p = Pending" "rid p = rid r"
      by blast
    from dist p(1) that(1) p(3) have "p = r" by (rule distinct_rid_eq)
    with p(2) show ?thesis by simp
  qed
  have a: "distinct (map rid (map ?f recs))" using dist by (simp only: ids)
  have b: "\<forall>r \<in> set recs. \<forall>x \<in> set (map ?f recs). rid x = rid r \<longrightarrow>
             status x = status r
             \<or> (status r = Pending \<and> (status x = Applied \<or> status x = Ignored))"
  proof (intro ballI impI)
    fix r x assume r: "r \<in> set recs" and x: "x \<in> set (map ?f recs)" and eq: "rid x = rid r"
    from x obtain r0 where r0: "r0 \<in> set recs" "x = ?f r0" by auto
    then have "rid r0 = rid r" using eq by (simp split: if_splits)
    with dist r0(1) r have "r0 = r" by (rule distinct_rid_eq)
    with r0(2) have xr: "x = ?f r" by simp
    show "status x = status r
            \<or> (status r = Pending \<and> (status x = Applied \<or> status x = Ignored))"
    proof (cases "rid r \<in> I")
      case True
      with pending [OF r] xr s show ?thesis by auto
    next
      case False
      with xr show ?thesis by simp
    qed
  qed
  have c: "\<forall>r \<in> set recs. status r \<noteq> Pending \<longrightarrow> (\<exists>x \<in> set (map ?f recs). rid x = rid r)"
  proof (intro ballI impI)
    fix r assume r: "r \<in> set recs"
    then have "?f r \<in> set (map ?f recs)" by (rule imageI [of r "set recs" ?f, folded set_map])
    moreover have "rid (?f r) = rid r" by simp
    ultimately show "\<exists>x \<in> set (map ?f recs). rid x = rid r" by blast
  qed
  from a b c show ?thesis by (simp only: statusKept_def)
qed

text \<open>The reconciliation: its output has distinct ids, whatever its input.\<close>

lemma map_rid_mapSet:
  "map rid (mapSet xs r)
     = (if rid r \<in> rid ` set xs then map rid xs else map rid xs @ [rid r])"
  by (induction xs r rule: mapSet.induct) auto

lemma finalStep_distinct_ids:
  "distinct (map rid acc) \<Longrightarrow> distinct (map rid (finalStep E SD acc r))"
  by (simp add: finalStep_def Let_def map_rid_mapSet split: option.splits)

lemma foldl_finalStep_distinct_ids:
  "distinct (map rid acc) \<Longrightarrow> distinct (map rid (foldl (finalStep E SD) acc S))"
  by (induction S arbitrary: acc) (simp_all add: finalStep_distinct_ids)

lemma reconcile_distinct_ids: "distinct (map rid (reconcile R prev cands))"
  unfolding reconcile_eq by (rule foldl_finalStep_distinct_ids) simp

text \<open>An applied or ignored recommendation that has entered the map is never replaced.\<close>

lemma mapSet_keeps:
  "x \<in> set xs \<Longrightarrow> find (\<lambda>y. rid y = rid r) xs \<noteq> Some x \<Longrightarrow> x \<in> set (mapSet xs r)"
  by (induction xs) (auto split: if_splits)

lemma finalStep_keeps_terminal:
  assumes "x \<in> set acc" "isTerminal x"
  shows "x \<in> set (finalStep E SD acc r)"
proof (cases "skipped E SD r")
  case True
  with assms(1) show ?thesis by (simp add: finalStep_skipped)
next
  case False
  show ?thesis
  proof (cases "find (\<lambda>y. rid y = rid (currentRecOf E r)) acc")
    case None
    then have "x \<in> set (mapSet acc (currentRecOf E r))"
      using assms(1) by (intro mapSet_keeps) simp_all
    with False None show ?thesis by (simp add: finalStep_def Let_def)
  next
    case (Some e)
    show ?thesis
    proof (cases "status e = Applied \<or> status e = Ignored")
      case True
      with False Some assms(1) show ?thesis by (simp add: finalStep_def Let_def)
    next
      case notTerminal: False
      with assms(2) have "e \<noteq> x" by (auto simp: isTerminal_def)
      with Some have "find (\<lambda>y. rid y = rid (currentRecOf E r)) acc \<noteq> Some x" by simp
      with assms(1) have "x \<in> set (mapSet acc (currentRecOf E r))" by (rule mapSet_keeps)
      with False Some notTerminal show ?thesis by (simp add: finalStep_def Let_def)
    qed
  qed
qed

lemma foldl_finalStep_keeps_terminal:
  "x \<in> set acc \<Longrightarrow> isTerminal x \<Longrightarrow> x \<in> set (foldl (finalStep E SD) acc S)"
  by (induction S arbitrary: acc) (simp_all add: finalStep_keeps_terminal)

lemma reconcile_keeps_terminal:
  assumes dist: "distinct (map rid prev)" and t: "t \<in> set prev" "isTerminal t"
  shows "currentRecOf (existingIds R) (carried (existingIds R) t) \<in> set (reconcile R prev cands)"
proof -
  let ?E = "existingIds R" and ?SD = "softDeletedIds R"
  from t have "t \<in> set (filter isTerminal prev)" by simp
  then obtain T1 T2 where split: "filter isTerminal prev = T1 @ t # T2"
    by (auto dest: split_list)
  have "distinct (map rid (filter isTerminal prev))"
    using dist by (rule distinct_map_filter)
  then have fresh: "rid t \<notin> rid ` set T1" by (simp add: split)
  let ?acc = "foldl (finalStep ?E ?SD) [] (map (carried ?E) T1)"
  have "rid (carried ?E t) \<notin> rid ` set ?acc"
  proof
    assume "rid (carried ?E t) \<in> rid ` set ?acc"
    then obtain x where x: "x \<in> set ?acc" "rid x = rid t" by auto
    from foldl_finalStep_members [OF x(1)] obtain r
      where "r \<in> set (map (carried ?E) T1)" "x = currentRecOf ?E r" by auto
    then obtain t1 where "t1 \<in> set T1" "rid x = rid t1" by auto
    with x(2) fresh show False by (metis imageI)
  qed
  moreover have "\<not> skipped ?E ?SD (carried ?E t)"
    using t(2) by (intro terminal_not_skipped) simp
  ultimately have "finalStep ?E ?SD ?acc (carried ?E t)
      = ?acc @ [currentRecOf ?E (carried ?E t)]"
    by (intro finalStep_fresh)
  then have "currentRecOf ?E (carried ?E t) \<in> set (finalStep ?E ?SD ?acc (carried ?E t))"
    by simp
  moreover have "isTerminal (currentRecOf ?E (carried ?E t))"
    using t(2) by (simp add: isTerminal_def)
  ultimately have "currentRecOf ?E (carried ?E t)
      \<in> set (foldl (finalStep ?E ?SD) (finalStep ?E ?SD ?acc (carried ?E t))
               (map (carried ?E) T2 @ mergedOf R prev cands))"
    by (rule foldl_finalStep_keeps_terminal)
  then show ?thesis by (simp add: reconcile_eq split)
qed

lemma regenerate_statusKept:
  assumes dist: "distinct (map rid prev)"
    and run: "generateRecommendations uuid R prev = Inr out"
  shows "statusKept prev out"
proof -
  from run obtain cands where cands: "candidateRecsFromRules uuid R = Inr cands"
    and out: "out = reconcile R prev cands"
    by (auto simp: generateRecommendations_Inr)
  from candidateRecsFromRules_Inr [OF cands] obtain drafts
    where drafts: "\<forall>d \<in> set drafts. candidateOf (activeOf R) d"
      and draw: "\<forall>u. candidateRecsFromRules u R = Inr (drawIds u drafts)" by blast
  from cands draw have "cands = drawIds uuid drafts" by simp
  with drafts have cand: "\<forall>c \<in> set cands. candidateOf (activeOf R) c"
    using drawIds_candidates by blast
  have a: "distinct (map rid out)" unfolding out by (rule reconcile_distinct_ids)
  have keep: "\<exists>x \<in> set out. rid x = rid r \<and> status x = status r"
    if "r \<in> set prev" "status r \<noteq> Pending" for r
  proof -
    from that(2) have "isTerminal r" by (cases "status r") (simp_all add: isTerminal_def)
    from reconcile_keeps_terminal [OF dist that(1) this, of R cands]
    show ?thesis unfolding out by (intro bexI [of _ "currentRecOf (existingIds R) (carried (existingIds R) r)"]) simp_all
  qed
  have b: "\<forall>r \<in> set prev. \<forall>x \<in> set out. rid x = rid r \<longrightarrow>
             status x = status r
             \<or> (status r = Pending \<and> (status x = Applied \<or> status x = Ignored))"
  proof (intro ballI impI)
    fix r x assume r: "r \<in> set prev" and x: "x \<in> set out" and eq: "rid x = rid r"
    have "status x = status r"
    proof (cases "status r = Pending")
      case False
      from keep [OF r False] obtain x' where x': "x' \<in> set out" "rid x' = rid r"
        "status x' = status r" by blast
      from a x'(1) x have "x' = x" using x'(2) eq by (intro distinct_rid_eq [of out]) simp_all
      with x'(3) show ?thesis by simp
    next
      case True
      from x have "x \<in> set (reconcile R prev cands)" by (simp only: out)
      from reconcile_members [OF this cand] show ?thesis
      proof
        assume "\<exists>t \<in> set prev. isTerminal t
          \<and> x = currentRecOf (existingIds R) (carried (existingIds R) t)"
        then obtain t where t: "t \<in> set prev" "isTerminal t" "rid x = rid t" by auto
        from dist t(1) r have "t = r" using t(3) eq by (intro distinct_rid_eq [of prev]) simp_all
        with t(2) True show ?thesis by (simp add: isTerminal_def)
      next
        assume "\<exists>c \<in> set cands.
          getRecommendationIdentity c \<notin> getRecommendationIdentity ` set (filter isTerminal prev)
          \<and> x = assignId (pendingMapOf prev) c \<and> status x = Pending
          \<and> \<not> skipped (existingIds R) (softDeletedIds R) x"
        then have "status x = Pending" by blast
        with True show ?thesis by simp
      qed
    qed
    then show "status x = status r
            \<or> (status r = Pending \<and> (status x = Applied \<or> status x = Ignored))" ..
  qed
  have c: "\<forall>r \<in> set prev. status r \<noteq> Pending \<longrightarrow> (\<exists>x \<in> set out. rid x = rid r)"
    using keep by blast
  from a b c show ?thesis by (simp only: statusKept_def)
qed

lemma appStep_statusKept:
  assumes "appStep st st'" "distinct (map rid (snd st))"
  shows "statusKept (snd st) (snd st')"
  using assms
proof (cases rule: appStep.cases)
  case (applyOne i)
  have "\<forall>j \<in> {i}. \<exists>p \<in> set (snd st). status p = Pending \<and> rid p = j"
    using offered_pending [OF applyOne(2)] by simp
  from mark_statusKept [OF assms(2) this, of Applied] show ?thesis
    by (simp only: applyOne(1) snd_applyRecommendation) simp
next
  case (ignoreOne i)
  have "\<forall>j \<in> {i}. \<exists>p \<in> set (snd st). status p = Pending \<and> rid p = j"
    using offered_pending [OF ignoreOne(2)] by simp
  from mark_statusKept [OF assms(2) this, of Ignored] show ?thesis
    by (simp only: ignoreOne(1) snd_ignoreRecommendation) simp
next
  case (applyGroup canonical)
  have "\<forall>j \<in> set (groupIds st canonical). \<exists>p \<in> set (snd st). status p = Pending \<and> rid p = j"
    using groupIds_pending by blast
  from mark_statusKept [OF assms(2) this, of Applied] show ?thesis
    by (simp only: applyGroup snd_applyMultipleRecommendations) simp
next
  case (ignoreGroup canonical)
  have "\<forall>j \<in> set (groupIds st canonical). \<exists>p \<in> set (snd st). status p = Pending \<and> rid p = j"
    using groupIds_pending by blast
  from mark_statusKept [OF assms(2) this, of Ignored] show ?thesis
    by (simp only: ignoreGroup snd_ignoreMultipleRecommendations) simp
next
  case (editTransactions transactions)
  have "\<forall>j \<in> {}. \<exists>p \<in> set (snd st). status p = Pending \<and> rid p = j" by simp
  from mark_statusKept [OF assms(2) this, of Applied] show ?thesis
    by (simp add: editTransactions)
next
  case (regenerate uuid out)
  from regenerate_statusKept [OF assms(2) regenerate(2)] show ?thesis
    by (simp add: regenerate(1))
qed

lemma statusKept_terminal:
  assumes "statusKept recs recs'" "x \<in> set recs" "status x \<noteq> Pending"
  shows "\<exists>y \<in> set recs'. rid y = rid x \<and> status y = status x"
proof -
  from assms obtain y where y: "y \<in> set recs'" "rid y = rid x"
    unfolding statusKept_def by blast
  with assms have "status y = status x" unfolding statusKept_def by blast
  with y show ?thesis by blast
qed

lemma steps_keep_terminal:
  assumes "appStep\<^sup>*\<^sup>* st st'" "distinct (map rid (snd st))"
    and "r \<in> set (snd st)" "status r \<noteq> Pending"
  shows "distinct (map rid (snd st'))
       \<and> (\<exists>x \<in> set (snd st'). rid x = rid r \<and> status x = status r)"
  using assms
proof (induction rule: rtranclp_induct)
  case base
  then show ?case by blast
next
  case (step st' st'')
  then have d: "distinct (map rid (snd st'))"
    and "\<exists>x \<in> set (snd st'). rid x = rid r \<and> status x = status r" by simp_all
  then obtain x where x: "x \<in> set (snd st')" "rid x = rid r" "status x = status r" by blast
  from appStep_statusKept [OF step.hyps(2) d] have k: "statusKept (snd st') (snd st'')" .
  from statusKept_terminal [OF k x(1)] x(3) step.prems(3)
  obtain y where "y \<in> set (snd st'')" "rid y = rid x" "status y = status x" by auto
  with x k show ?case unfolding statusKept_def by auto
qed

text \<open>
  C7 (terminal status). The handlers are reached through the buttons of the views, which
  offer them for pending recommendations; between two operations the transactions may
  change and the recommendations may be regenerated. Along every such sequence of steps,
  from a state in which the ids of the recommendations are distinct: a recommendation
  whose status is applied or ignored stays in the list, under its id, with the same
  status; and every step changes the status of a recommendation from pending to applied
  or from pending to ignored only.
\<close>

theorem terminal_status_kept:
  assumes "distinct (map rid (snd st))" "appStep\<^sup>*\<^sup>* st st'"
  shows "(\<forall>r \<in> set (snd st). status r \<noteq> Pending \<longrightarrow>
            (\<exists>x \<in> set (snd st'). rid x = rid r)
          \<and> (\<forall>x \<in> set (snd st'). rid x = rid r \<longrightarrow> status x = status r))
       \<and> (\<forall>st''. appStep st' st'' \<longrightarrow>
            (\<forall>r \<in> set (snd st'). \<forall>x \<in> set (snd st''). rid x = rid r \<longrightarrow>
               status x = status r
               \<or> (status r = Pending \<and> (status x = Applied \<or> status x = Ignored))))"
proof (intro conjI ballI impI allI)
  fix r assume r: "r \<in> set (snd st)" "status r \<noteq> Pending"
  from steps_keep_terminal [OF assms(2,1) r]
  obtain x where d: "distinct (map rid (snd st'))"
    and x: "x \<in> set (snd st')" "rid x = rid r" "status x = status r" by blast
  from x show "\<exists>x \<in> set (snd st'). rid x = rid r" by blast
  fix y assume y: "y \<in> set (snd st')" "rid y = rid r"
  from d y(1) x(1) have "y = x" using y(2) x(2) by (intro distinct_rid_eq [of "snd st'"]) simp_all
  with x(3) show "status y = status r" by simp
next
  fix st'' r x
  assume step: "appStep st' st''" and r: "r \<in> set (snd st')" and x: "x \<in> set (snd st'')"
    and eq: "rid x = rid r"
  have "distinct (map rid (snd st'))"
    using assms(2,1)
  proof (induction rule: rtranclp_induct)
    case base
    then show ?case .
  next
    case (step a b)
    from appStep_statusKept [OF step.hyps(2)] step show ?case
      by (simp add: statusKept_def)
  qed
  from appStep_statusKept [OF step this] r x eq
  show "status x = status r
          \<or> (status r = Pending \<and> (status x = Applied \<or> status x = Ignored))"
    unfolding statusKept_def by blast
qed

text \<open>
  The user applies the recommendation for the transaction without expense type, then the
  recommendations are regenerated (run \<open>v\<close>): the applied recommendation is still there
  and still applied, beside two new pending ones.
\<close>

theorem terminal_status_kept_witness:
  "appStep ([uberRecord], [uberRecommendation]) uberApplied
   \<and> map summary (snd uberApplied) = [(''u'', MissingField, Some ExpenseType, Applied)]
   \<and> (\<exists>out. generateRecommendations (exampleUuid (CHR ''v'')) (fst uberApplied)
               (snd uberApplied) = Inr out
          \<and> appStep uberApplied (fst uberApplied, out)
          \<and> map summary out
              = [(''u'', MissingField, Some ExpenseType, Applied),
                 (''v'', MissingField, Some ExpenseSubtype, Pending),
                 (''vv'', Classification, Some ExpenseSubtype, Pending)]
          \<and> (\<forall>x \<in> set out. rid x = ''u'' \<longrightarrow> status x = Applied))"
proof -
  have off: "offered ([uberRecord], [uberRecommendation]) ''u''"
    unfolding uberRecommendation_def uberRecord_def noFlags_def by code_simp
  have s0: "appStep ([uberRecord], [uberRecommendation]) uberApplied"
    unfolding uberApplied_def using off by (rule appStep.applyOne)
  have recs: "snd uberApplied = [uberRecommendation\<lparr>status := Applied\<rparr>]"
    by (simp add: uberApplied_def applyRecommendation_def uberRecommendation_def)
  have sum1: "map summary (snd uberApplied) = [(''u'', MissingField, Some ExpenseType, Applied)]"
    by (simp add: recs summary_def uberRecommendation_def)
  have "\<exists>out. generateRecommendations (exampleUuid (CHR ''v'')) (fst uberApplied)
               (snd uberApplied) = Inr out
          \<and> map summary out
              = [(''u'', MissingField, Some ExpenseType, Applied),
                 (''v'', MissingField, Some ExpenseSubtype, Pending),
                 (''vv'', Classification, Some ExpenseSubtype, Pending)]"
  proof -
    have "map_sum id (map summary)
            (generateRecommendations (exampleUuid (CHR ''v'')) (fst uberApplied)
               (snd uberApplied))
          = Inr [(''u'', MissingField, Some ExpenseType, Applied),
                 (''v'', MissingField, Some ExpenseSubtype, Pending),
                 (''vv'', Classification, Some ExpenseSubtype, Pending)]"
      unfolding uberApplied_def uberRecommendation_def uberRecord_def noFlags_def
      by code_simp
    then show ?thesis
      by (cases "generateRecommendations (exampleUuid (CHR ''v'')) (fst uberApplied)
               (snd uberApplied)") simp_all
  qed
  then obtain out where run: "generateRecommendations (exampleUuid (CHR ''v''))
        (fst uberApplied) (snd uberApplied) = Inr out"
    and sum2: "map summary out
              = [(''u'', MissingField, Some ExpenseType, Applied),
                 (''v'', MissingField, Some ExpenseSubtype, Pending),
                 (''vv'', Classification, Some ExpenseSubtype, Pending)]"
    by (elim exE conjE)
  from run have s1: "appStep uberApplied (fst uberApplied, out)" by (rule appStep.regenerate)
  then have steps: "appStep\<^sup>*\<^sup>* uberApplied (fst uberApplied, out)" by (rule r_into_rtranclp)
  have d: "distinct (map rid (snd uberApplied))" by (simp add: recs)
  have kept: "\<forall>x \<in> set out. rid x = ''u'' \<longrightarrow> status x = Applied"
    using terminal_status_kept [OF d steps] by (simp add: recs uberRecommendation_def)
  show ?thesis by (intro conjI exI [of _ out] s0 sum1 run s1 sum2 kept)
qed

end
